theory Spec2Isabelle
  imports
    Main
    "HOL-Library.Char_ord"
    "HOL-Library.List_Lexorder"
    "HOL-Library.Multiset"
    "HOL-Library.Product_Lexorder"
begin

section \<open>Values of the JavaScript runtime\<close>

text \<open>
  The ingestion service is TypeScript on Node. Its data are JSON values: what
  \<^verbatim>\<open>JSON.parse\<close> returns and what the plugins build with object literals.
  A JavaScript number is an IEEE double; nothing below computes with numbers, so
  the number type is the parameter \<open>'n\<close> and its rendering (\<^verbatim>\<open>Number::toString\<close>)
  is passed as a function where the code renders one.
  An object is the list of its own properties in insertion order; a well-formed
  object has distinct keys.
\<close>

datatype 'n json =
    JNull
  | JBool bool
  | JNum 'n
  | JStr string
  | JArr "'n json list"
  | JObj "(string \<times> 'n json) list"

text \<open>\<^verbatim>\<open>Array.prototype.join(sep)\<close> on an array of strings.\<close>

fun join :: "string \<Rightarrow> string list \<Rightarrow> string" where
  "join sep [] = []"
| "join sep [x] = x"
| "join sep (x # y # ys) = x @ sep @ join sep (y # ys)"

text \<open>
  The conversion a template literal \<^verbatim>\<open>`${v}`\<close> applies to a value (ToString):
  an array joins its elements with a comma, \<^verbatim>\<open>null\<close> elements rendering as
  the empty string; a plain object renders as \<^verbatim>\<open>[object Object]\<close>.
\<close>

fun js_toString :: "('n \<Rightarrow> string) \<Rightarrow> 'n json \<Rightarrow> string" where
  "js_toString ns JNull = ''null''"
| "js_toString ns (JBool b) = (if b then ''true'' else ''false'')"
| "js_toString ns (JNum n) = ns n"
| "js_toString ns (JStr s) = s"
| "js_toString ns (JArr xs) =
     join '','' (map (\<lambda>x. if x = JNull then [] else js_toString ns x) xs)"
| "js_toString ns (JObj ps) = ''[object Object]''"

text \<open>
  \<^verbatim>\<open>`${obj[k]}`\<close>: a property that is absent reads as \<^verbatim>\<open>undefined\<close>.
\<close>

definition template :: "('v \<Rightarrow> string) \<Rightarrow> 'v option \<Rightarrow> string" where
  "template toStr r = (case r of None \<Rightarrow> ''undefined'' | Some v \<Rightarrow> toStr v)"

section \<open>core/util/fingerprint.ts\<close>

text \<open>
  The source of this module is the second part of
  \<^verbatim>\<open>src/ingestion/src/core/util/retry.ts\<close> (lines 50 to 84).
\<close>

text \<open>
  \<^verbatim>\<open>Object.keys(obj)\<close>: the own keys of the object. (JavaScript lists
  integer-like keys first; \<^verbatim>\<open>fingerprint\<close> sorts the keys at once, so the
  order here does not reach the result.)
\<close>

definition Object_keys :: "(string \<times> 'v) list \<Rightarrow> string list" where
  "Object_keys obj = map fst obj"

text \<open>
  The default \<^verbatim>\<open>sort()\<close> compares strings by their UTF-16 code units. A
  string is kept here as the bytes of its UTF-8 encoding (see the section on
  buffers), so its code units are computed: a character of one, two or three bytes
  is one unit, a character of four bytes is a surrogate pair. (On bytes that are
  not well-formed UTF-8, which no JavaScript string gives, a byte counts as a
  unit.) The sort key pairs the units with the bytes, which makes it injective on
  all byte lists and changes nothing between two strings.
\<close>

fun utf16_units :: "string \<Rightarrow> nat list" where
  "utf16_units [] = []"
| "utf16_units (c # cs) =
     (let b = (of_char c :: nat) in
      if 0xC2 \<le> b \<and> b \<le> 0xDF then
        (case cs of
           c1 # r \<Rightarrow> ((b - 0xC0) * 64 + (of_char c1 - 0x80)) # utf16_units r
         | _ \<Rightarrow> b # utf16_units cs)
      else if 0xE0 \<le> b \<and> b \<le> 0xEF then
        (case cs of
           c1 # c2 # r \<Rightarrow>
             ((b - 0xE0) * 4096 + (of_char c1 - 0x80) * 64 + (of_char c2 - 0x80)) # utf16_units r
         | _ \<Rightarrow> b # utf16_units cs)
      else if 0xF0 \<le> b \<and> b \<le> 0xF4 then
        (case cs of
           c1 # c2 # c3 # r \<Rightarrow>
             (let cp = (b - 0xF0) * 262144 + (of_char c1 - 0x80) * 4096
                         + (of_char c2 - 0x80) * 64 + (of_char c3 - 0x80) - 0x10000
              in (0xD800 + cp div 1024) # (0xDC00 + cp mod 1024) # utf16_units r)
         | _ \<Rightarrow> b # utf16_units cs)
      else b # utf16_units cs)"

definition sort_order :: "string \<Rightarrow> nat list \<times> string" where
  "sort_order k = (utf16_units k, k)"

text \<open>
  The string that is hashed:
  \<^verbatim>\<open>Object.keys(obj).sort().map(k => `${k}=${obj[k]}`).join("|")\<close>.
\<close>

definition ordered :: "('v \<Rightarrow> string) \<Rightarrow> (string \<times> 'v) list \<Rightarrow> string" where
  "ordered toStr obj =
     join ''|'' (map (\<lambda>k. k @ ''='' @ template toStr (map_of obj k)) (sort_key sort_order (Object_keys obj)))"

text \<open>
  \<^verbatim>\<open>crypto.createHash("sha256").update(ordered).digest("hex")\<close> is the
  parameter \<open>sha256hex\<close>: Node's library, not code of the repository.
\<close>

definition fingerprint :: "(string \<Rightarrow> string) \<Rightarrow> ('v \<Rightarrow> string) \<Rightarrow> (string \<times> 'v) list \<Rightarrow> string" where
  "fingerprint sha256hex toStr obj = sha256hex (ordered toStr obj)"

text \<open>A well-formed object: no key twice.\<close>

definition wf_obj :: "(string \<times> 'v) list \<Rightarrow> bool" where
  "wf_obj obj = distinct (map fst obj)"

text \<open>
  What a field map looks like after rendering: each key with the string that
  \<^verbatim>\<open>`${obj[k]}`\<close> gives for its value. Two objects with the same rendering
  are the same to \<open>fingerprint\<close>.
\<close>

definition rendered :: "('v \<Rightarrow> string) \<Rightarrow> (string \<times> 'v) list \<Rightarrow> string \<Rightarrow> string option" where
  "rendered toStr obj k = map_option toStr (map_of obj k)"

text \<open>
  No key contains the character \<open>=\<close> and no rendered value contains the
  delimiter \<open>|\<close>.
\<close>

definition delimiter_free :: "('v \<Rightarrow> string) \<Rightarrow> (string \<times> 'v) list \<Rightarrow> bool" where
  "delimiter_free toStr obj =
     list_all (\<lambda>(k, v). CHR ''='' \<notin> set k \<and> CHR ''|'' \<notin> set (toStr v)) obj"

text \<open>One element of the joined list: \<^verbatim>\<open>`${k}=${v}`\<close>.\<close>

definition piece :: "string \<times> string \<Rightarrow> string" where
  "piece p = fst p @ ''='' @ snd p"

section \<open>core/util/retry.ts\<close>

text \<open>
  \<^verbatim>\<open>opts: { retries?: number; baseMs?: number } = {}\<close>: both fields are
  optional, a count of attempts and a number of milliseconds, natural numbers
  here (a budget that is negative, fractional or infinite is no count).
\<close>

record retry_opts =
  retries :: "nat option"
  baseMs :: "nat option"

text \<open>
  The operation \<^verbatim>\<open>fn: () => Promise<T>\<close> acts on the world outside the
  function: it takes the state \<open>'s\<close> and returns the new one with its outcome,
  \<open>Inl err\<close> for a rejected promise and \<open>Inr v\<close> for a fulfilled one.
  \<^verbatim>\<open>await new Promise((resolve) => setTimeout(resolve, delay))\<close> is the
  parameter \<open>sleep\<close>: it receives \<^verbatim>\<open>expDelay = baseMs * 2 ** (attempt - 1)\<close>,
  draws the jitter factor from \<^verbatim>\<open>Math.random()\<close> and lets the other tasks
  of the event loop run, which may change the state.

  \<open>retry_from\<close> is the body of \<^verbatim>\<open>while (true)\<close> at the current value of
  \<^verbatim>\<open>attempt\<close>; the loop ends because \<^verbatim>\<open>attempt\<close> grows up to the budget.
  The third component of the result counts the invocations of \<^verbatim>\<open>fn\<close>
  made since \<^verbatim>\<open>retry\<close> was called: \<^verbatim>\<open>attempt\<close> counts the failed ones.
\<close>

function retry_from ::
  "('s \<Rightarrow> ('e + 'a) \<times> 's) \<Rightarrow> (nat \<Rightarrow> 's \<Rightarrow> 's) \<Rightarrow> nat \<Rightarrow> nat \<Rightarrow> nat \<Rightarrow> 's
     \<Rightarrow> ('e + 'a) \<times> 's \<times> nat" where
  "retry_from fn sleep r b attempt s =
     (case fn s of
        (Inr v, s') \<Rightarrow> (Inr v, s', attempt + 1)
      | (Inl err, s') \<Rightarrow>
          (if attempt + 1 > r then (Inl err, s', attempt + 1)
           else retry_from fn sleep r b (attempt + 1) (sleep (b * 2 ^ (attempt + 1 - 1)) s')))"
  by pat_completeness auto
termination
  by (relation "measure (\<lambda>(fn, sleep, r, b, attempt, s). r - attempt)") auto

declare retry_from.simps [simp del]

text \<open>\<^verbatim>\<open>const { retries = 3, baseMs = 200 } = opts; let attempt = 0;\<close>\<close>

definition retry ::
  "('s \<Rightarrow> ('e + 'a) \<times> 's) \<Rightarrow> (nat \<Rightarrow> 's \<Rightarrow> 's) \<Rightarrow> retry_opts \<Rightarrow> 's \<Rightarrow> ('e + 'a) \<times> 's \<times> nat" where
  "retry fn sleep opts s =
     retry_from fn sleep
       (case retries opts of None \<Rightarrow> 3 | Some r \<Rightarrow> r)
       (case baseMs opts of None \<Rightarrow> 200 | Some b \<Rightarrow> b)
       0 s"

text \<open>
  The state in which \<^verbatim>\<open>fn\<close> is invoked for the \<open>(k+1)\<close>-th time after a
  call that starts in \<open>s\<close> with \<^verbatim>\<open>attempt = a\<close>, all invocations before
  having failed: each failure is followed by one sleep.
\<close>

fun before :: "('s \<Rightarrow> ('e + 'a) \<times> 's) \<Rightarrow> (nat \<Rightarrow> 's \<Rightarrow> 's) \<Rightarrow> nat \<Rightarrow> nat \<Rightarrow> 's \<Rightarrow> nat \<Rightarrow> 's" where
  "before fn sleep b a s 0 = s"
| "before fn sleep b a s (Suc k) = sleep (b * 2 ^ (a + k)) (snd (fn (before fn sleep b a s k)))"

text \<open>The \<open>(k+1)\<close>-th invocation of \<^verbatim>\<open>fn\<close> by \<^verbatim>\<open>retry(fn, opts)\<close>: outcome and state after it.\<close>

definition invocation ::
  "('s \<Rightarrow> ('e + 'a) \<times> 's) \<Rightarrow> (nat \<Rightarrow> 's \<Rightarrow> 's) \<Rightarrow> retry_opts \<Rightarrow> 's \<Rightarrow> nat \<Rightarrow> ('e + 'a) \<times> 's" where
  "invocation fn sleep opts s k =
     fn (before fn sleep (case baseMs opts of None \<Rightarrow> 200 | Some b \<Rightarrow> b) 0 s k)"

text \<open>
  Two operations on a call counter, for concrete runs: one rejects every time with
  the number of the call as its error, one fulfils on its \<open>k\<close>-th call.
  \<open>no_wait\<close> is a sleep during which nothing else happens.
\<close>

definition always_fails :: "nat \<Rightarrow> (nat + unit) \<times> nat" where
  "always_fails n = (Inl n, Suc n)"

definition succeeds_on :: "nat \<Rightarrow> nat \<Rightarrow> (nat + string) \<times> nat" where
  "succeeds_on k n = (if Suc n = k then Inr ''ok'' else Inl n, Suc n)"

definition no_wait :: "nat \<Rightarrow> 's \<Rightarrow> 's" where
  "no_wait delay s = s"

section \<open>Numbers, thrown values and property access\<close>

text \<open>
  What the code asks of a number: its rendering (\<^verbatim>\<open>Number::toString\<close>,
  used by template literals) and whether it is \<^verbatim>\<open>NaN\<close>, which
  \<^verbatim>\<open>z.number()\<close> rejects.
\<close>

record 'n number_ops =
  numToString :: "'n \<Rightarrow> string"
  isNaN :: "'n \<Rightarrow> bool"

text \<open>
  A concrete number type for running the model: a number is represented by its
  decimal rendering, the string that \<^verbatim>\<open>Number::toString\<close> returns for it.
\<close>

definition literal_numbers :: "string number_ops" where
  "literal_numbers = \<lparr>numToString = id, isNaN = (\<lambda>s. s = ''NaN'')\<rparr>"

text \<open>
  A thrown value or rejection reason: what the service reads of it is
  \<^verbatim>\<open>err?.name\<close>, absent for a value that is no \<^verbatim>\<open>Error\<close>.
\<close>

datatype js_error = JsError (err_name: "string option") (err_message: string)

text \<open>\<^verbatim>\<open>v.k\<close> on a JSON value: \<^verbatim>\<open>undefined\<close> (\<open>None\<close>) unless \<open>v\<close> is an object with the key.\<close>

definition getprop :: "string \<Rightarrow> 'n json \<Rightarrow> 'n json option" where
  "getprop k v = (case v of JObj ps \<Rightarrow> map_of ps k | _ \<Rightarrow> None)"

section \<open>zod schemas\<close>

text \<open>
  Each validator takes the value found at a key (\<open>None\<close> when the key is
  absent) and returns the parsed value, \<open>None\<close> when validation fails.
  \<^verbatim>\<open>z.string()\<close>, \<^verbatim>\<open>z.string().min(1)\<close>, \<^verbatim>\<open>z.number()\<close>,
  \<^verbatim>\<open>z.literal(l)\<close> for a string literal, and the outer check of
  \<^verbatim>\<open>z.object({...})\<close>: a plain object, neither \<^verbatim>\<open>null\<close> nor an array.
\<close>

fun z_string :: "'n json option \<Rightarrow> string option" where
  "z_string (Some (JStr s)) = Some s"
| "z_string _ = None"

fun z_string_min1 :: "'n json option \<Rightarrow> string option" where
  "z_string_min1 (Some (JStr s)) = (if length s \<ge> 1 then Some s else None)"
| "z_string_min1 _ = None"

fun z_number :: "'n number_ops \<Rightarrow> 'n json option \<Rightarrow> 'n option" where
  "z_number N (Some (JNum n)) = (if isNaN N n then None else Some n)"
| "z_number N _ = None"

fun z_literal :: "string \<Rightarrow> 'n json option \<Rightarrow> string option" where
  "z_literal l (Some (JStr s)) = (if s = l then Some s else None)"
| "z_literal l _ = None"

fun z_object :: "'n json option \<Rightarrow> (string \<times> 'n json) list option" where
  "z_object (Some (JObj ps)) = Some ps"
| "z_object _ = None"

section \<open>plugins/example/normalizer.ts\<close>

text \<open>The type that \<^verbatim>\<open>RawSensorSchema\<close> parses to.\<close>

record 'n sensor_payload =
  sensorId :: string
  "value" :: 'n
  unit :: string
  location :: string

record 'n raw_sensor =
  tool :: string
  schemaVersion :: string
  runId :: string
  data :: "'n sensor_payload"

text \<open>
  \<^verbatim>\<open>RawSensorSchema.safeParse(raw)\<close>: \<open>None\<close> for \<^verbatim>\<open>success: false\<close>.
  All four top-level keys are required, \<^verbatim>\<open>schemaVersion\<close> among them.
\<close>

definition RawSensorSchema_safeParse :: "'n number_ops \<Rightarrow> 'n json \<Rightarrow> 'n raw_sensor option" where
  "RawSensorSchema_safeParse N raw =
     (case z_object (Some raw) of None \<Rightarrow> None | Some ps \<Rightarrow>
      case z_literal ''sensor_report'' (map_of ps ''tool'') of None \<Rightarrow> None | Some t \<Rightarrow>
      case z_string (map_of ps ''schemaVersion'') of None \<Rightarrow> None | Some sv \<Rightarrow>
      case z_string (map_of ps ''runId'') of None \<Rightarrow> None | Some rid \<Rightarrow>
      case z_object (map_of ps ''data'') of None \<Rightarrow> None | Some d \<Rightarrow>
      case z_string (map_of d ''sensorId'') of None \<Rightarrow> None | Some sid \<Rightarrow>
      case z_number N (map_of d ''value'') of None \<Rightarrow> None | Some v \<Rightarrow>
      case z_string (map_of d ''unit'') of None \<Rightarrow> None | Some u \<Rightarrow>
      case z_string (map_of d ''location'') of None \<Rightarrow> None | Some l \<Rightarrow>
        Some \<lparr>tool = t, schemaVersion = sv, runId = rid,
              data = \<lparr>sensorId = sid, value = v, unit = u, location = l\<rparr>\<rparr>)"

text \<open>
  The plugin's own \<^verbatim>\<open>DomainEventSchema\<close> (local to the plugin file; the
  envelope schema of the same name in core/schemas.ts is \<open>DomainEventSchema_ok\<close>
  below): whether \<^verbatim>\<open>DomainEventSchema.parse(domain)\<close> returns.
\<close>

definition plugin_DomainEventSchema_ok :: "'n number_ops \<Rightarrow> 'n json \<Rightarrow> bool" where
  "plugin_DomainEventSchema_ok N ev =
     (z_literal ''1.0'' (getprop ''specVersion'' ev) \<noteq> None
      \<and> (case z_object (getprop ''event'' ev) of None \<Rightarrow> False | Some e \<Rightarrow>
            z_literal ''SENSOR_READING'' (map_of e ''event_type'') \<noteq> None
            \<and> z_string (map_of e ''fingerprint'') \<noteq> None)
      \<and> (case z_object (getprop ''meta'' ev) of None \<Rightarrow> False | Some m \<Rightarrow>
            z_string (map_of m ''sensorId'') \<noteq> None
            \<and> z_string (map_of m ''sensorType'') \<noteq> None
            \<and> z_number N (map_of m ''value'') \<noteq> None
            \<and> z_string (map_of m ''unit'') \<noteq> None
            \<and> z_string (map_of m ''location'') \<noteq> None
            \<and> z_string (map_of m ''toolRunId'') \<noteq> None
            \<and> z_string (map_of m ''normalizerVersion'') \<noteq> None
            \<and> z_string (map_of m ''source'') \<noteq> None
            \<and> z_string (map_of m ''rawTool'') \<noteq> None
            \<and> z_string (map_of m ''rawRunId'') \<noteq> None))"

text \<open>
  \<^verbatim>\<open>String.prototype.toLowerCase\<close> on the ASCII letters,
  \<^verbatim>\<open>startsWith\<close> and \<^verbatim>\<open>includes\<close>.
\<close>

definition toLowerCase :: "string \<Rightarrow> string" where
  "toLowerCase s =
     map (\<lambda>c. if CHR ''A'' \<le> c \<and> c \<le> CHR ''Z'' then char_of (of_char c + (32::nat)) else c) s"

fun startsWith :: "string \<Rightarrow> string \<Rightarrow> bool" where
  "startsWith s [] = True"
| "startsWith [] (p # ps) = False"
| "startsWith (c # s) (p # ps) = (c = p \<and> startsWith s ps)"

fun includes_str :: "string \<Rightarrow> string \<Rightarrow> bool" where
  "includes_str [] sub = (sub = [])"
| "includes_str (c # s) sub = (startsWith (c # s) sub \<or> includes_str s sub)"

definition deriveSensorType :: "string \<Rightarrow> string" where
  "deriveSensorType sid =
     (let id = toLowerCase sid in
      if includes_str id ''temp'' \<or> includes_str id ''temperature'' then ''temperature''
      else if includes_str id ''humid'' \<or> includes_str id ''moisture'' then ''humidity''
      else if includes_str id ''pressure'' \<or> includes_str id ''press'' then ''pressure''
      else if includes_str id ''light'' \<or> includes_str id ''lux'' then ''light''
      else if includes_str id ''motion'' \<or> includes_str id ''pir'' then ''motion''
      else if includes_str id ''air'' \<or> includes_str id ''co2'' then ''air_quality''
      else ''generic'')"

text \<open>
  The normalizer. \<open>Inr None\<close> is \<^verbatim>\<open>return null\<close>, \<open>Inl\<close> the
  \<^verbatim>\<open>ZodError\<close> that \<^verbatim>\<open>DomainEventSchema.parse\<close> throws.
\<close>

definition normalize ::
  "'n number_ops \<Rightarrow> (string \<Rightarrow> string) \<Rightarrow> 'n json \<Rightarrow> js_error + 'n json list option" where
  "normalize N sha256hex raw =
     (case RawSensorSchema_safeParse N raw of
        None \<Rightarrow> Inr None
      | Some parsed \<Rightarrow>
          (let payload = data parsed;
               sensorType = deriveSensorType (sensorId payload);
               fp = fingerprint sha256hex (js_toString (numToString N))
                      [(''type'', JStr ''SENSOR_READING''),
                       (''sensor'', JStr (sensorId payload)),
                       (''location'', JStr (location payload)),
                       (''value'', JNum (value payload)),
                       (''unit'', JStr (unit payload))];
               domain = JObj
                 [(''specVersion'', JStr ''1.0''),
                  (''event'', JObj
                     [(''event_type'', JStr ''SENSOR_READING''),
                      (''fingerprint'', JStr fp)]),
                  (''meta'', JObj
                     [(''sensorId'', JStr (sensorId payload)),
                      (''sensorType'', JStr sensorType),
                      (''value'', JNum (value payload)),
                      (''unit'', JStr (unit payload)),
                      (''location'', JStr (location payload)),
                      (''toolRunId'', JStr (runId parsed)),
                      (''normalizerVersion'', JStr ''0.0.3-typed''),
                      (''source'', JStr ''central''),
                      (''rawTool'', JStr (tool parsed)),
                      (''rawRunId'', JStr (runId parsed))])]
           in if plugin_DomainEventSchema_ok N domain then Inr (Some [domain])
              else Inl (JsError (Some ''ZodError'') ''invalid domain event'')))"

text \<open>The payload of the end-to-end scenario, with the reading \<open>v\<close>.\<close>

definition sensor_data :: "'n \<Rightarrow> 'n json" where
  "sensor_data v = JObj [(''sensorId'', JStr ''temp-1''), (''value'', JNum v),
       (''unit'', JStr ''celsius''), (''location'', JStr ''kitchen'')]"

section \<open>node:path\<close>

text \<open>
  \<^verbatim>\<open>path.resolve\<close> of Node on POSIX. The arguments are taken from the right
  until an absolute one is met, the working directory being the last resort, and
  the result is normalised: empty segments and \<^verbatim>\<open>.\<close> are dropped,
  \<^verbatim>\<open>..\<close> removes the segment before it, and there is no trailing slash.
\<close>

fun split_on :: "char \<Rightarrow> string \<Rightarrow> string list" where
  "split_on sep [] = [[]]"
| "split_on sep (c # cs) =
     (if c = sep then [] # split_on sep cs
      else (case split_on sep cs of [] \<Rightarrow> [[c]] | s # ss \<Rightarrow> (c # s) # ss))"

fun normalizeString :: "bool \<Rightarrow> string list \<Rightarrow> string list \<Rightarrow> string list" where
  "normalizeString allowAboveRoot res [] = res"
| "normalizeString allowAboveRoot res (seg # segs) =
     (if seg = [] \<or> seg = ''.'' then normalizeString allowAboveRoot res segs
      else if seg = ''..'' then
        (if res \<noteq> [] \<and> last res \<noteq> ''..'' then normalizeString allowAboveRoot (butlast res) segs
         else if allowAboveRoot then normalizeString allowAboveRoot (res @ [''..'']) segs
         else normalizeString allowAboveRoot res segs)
      else normalizeString allowAboveRoot (res @ [seg]) segs)"

fun resolve_loop :: "string list \<Rightarrow> string \<Rightarrow> string \<times> bool" where
  "resolve_loop [] resolvedPath = (resolvedPath, False)"
| "resolve_loop (p # ps) resolvedPath =
     (case p of
        [] \<Rightarrow> resolve_loop ps resolvedPath
      | c # cs \<Rightarrow>
          (if c = CHR ''/'' then (p @ ''/'' @ resolvedPath, True)
           else resolve_loop ps (p @ ''/'' @ resolvedPath)))"

definition resolve :: "string \<Rightarrow> string list \<Rightarrow> string" where
  "resolve cwd paths =
     (let (resolvedPath, resolvedAbsolute) = resolve_loop (rev paths @ [cwd]) [];
          normalized = join ''/'' (normalizeString (\<not> resolvedAbsolute) [] (split_on CHR ''/'' resolvedPath))
      in if resolvedAbsolute then ''/'' @ normalized
         else if normalized \<noteq> [] then normalized else ''.'')"

section \<open>Service entry point: plugin loading\<close>

text \<open>
  The entry point of the ingestion service is the last part of
  \<^verbatim>\<open>src/ingestion/src/plugins/example/normalizer.ts\<close> (lines 147 to 366; the
  example normalizer is the first part, the schemas of core/schemas.ts are in
  \<^verbatim>\<open>src/unnamed/part_004\<close>).
\<close>

text \<open>The characters that \<^verbatim>\<open>replace(/[^a-zA-Z0-9/_-]/g, '')\<close> keeps.\<close>

definition path_char :: "char \<Rightarrow> bool" where
  "path_char c =
     ((CHR ''a'' \<le> c \<and> c \<le> CHR ''z'') \<or> (CHR ''A'' \<le> c \<and> c \<le> CHR ''Z'')
      \<or> (CHR ''0'' \<le> c \<and> c \<le> CHR ''9'') \<or> c = CHR ''/'' \<or> c = CHR ''_'' \<or> c = CHR ''-'')"

text \<open>
  \<^verbatim>\<open>__dirname\<close>, the directory of the running module (it ends in a slash, being
  \<^verbatim>\<open>fileURLToPath(new URL(".", import.meta.url))\<close>), and the working directory
  of the process.
\<close>

record loader_env =
  dirname :: string
  cwd :: string

text \<open>
  \<^verbatim>\<open>validatePluginPath(pluginPath, baseDir = "plugins")\<close>: \<open>Inl\<close> is the
  thrown \<^verbatim>\<open>Error\<close>. The test is \<^verbatim>\<open>fullPath.startsWith(basePath)\<close>, a
  comparison of strings.
\<close>

definition validatePluginPath :: "loader_env \<Rightarrow> string \<Rightarrow> string \<Rightarrow> js_error + string" where
  "validatePluginPath env pluginPath baseDir =
     (let cleanPath = filter path_char pluginPath;
          fullPath = resolve (cwd env) [dirname env, cleanPath];
          basePath = resolve (cwd env) [dirname env, baseDir]
      in if \<not> startsWith fullPath basePath
         then Inl (JsError (Some ''Error'')
                (''Invalid plugin path: '' @ pluginPath @ '' resolves outside allowed directory''))
         else Inr cleanPath)"

text \<open>
  The file that \<^verbatim>\<open>import(`./${safePath}.js`)\<close> loads: the specifier is
  relative to the importing module, which lies in \<^verbatim>\<open>__dirname\<close>.
\<close>

definition module_file :: "loader_env \<Rightarrow> string \<Rightarrow> string" where
  "module_file env safePath = resolve (cwd env) [dirname env, ''./'' @ safePath @ ''.js'']"

text \<open>A record of the structured logger: level, message, fields.\<close>

datatype log_level = INFO | WARN | ERROR

datatype log_entry = Log log_level string "(string \<times> string) list"

text \<open>
  \<^verbatim>\<open>registry[key] = handler\<close> on an object kept as the list of its
  properties: an existing key keeps its place, a new one goes last.
\<close>

fun assign :: "'k \<Rightarrow> 'v \<Rightarrow> ('k \<times> 'v) list \<Rightarrow> ('k \<times> 'v) list" where
  "assign k v [] = [(k, v)]"
| "assign k v ((k', v') # kvs) = (if k = k' then (k, v) # kvs else (k', v') # assign k v kvs)"

text \<open>
  The body of the loading loops, one \<^verbatim>\<open>try\<close>/\<^verbatim>\<open>catch\<close> per entry.
  \<open>import\<close> gives, for a file, the \<^verbatim>\<open>default\<close> export of the module there
  or the error that importing it throws. The two loops differ in the name of the
  registry and of the logged field only. An assignment to the key
  \<^verbatim>\<open>__proto__\<close> creates no own property: it makes the handler the prototype
  of the registry.
\<close>

definition load_entry ::
  "loader_env \<Rightarrow> (string \<Rightarrow> js_error + 'h) \<Rightarrow> string \<Rightarrow> string \<Rightarrow> string \<times> string
     \<Rightarrow> (string \<times> 'h) list \<times> log_entry list \<Rightarrow> (string \<times> 'h) list \<times> log_entry list" where
  "load_entry env import kind keyName entry st =
     (let (registry, logs) = st; (key, modPath) = entry in
      case validatePluginPath env modPath ''plugins'' of
        Inl err \<Rightarrow>
          (registry, logs @ [Log WARN (kind @ '' loading failed; skipped'')
                               [(keyName, key), (''error'', err_message err)]])
      | Inr safePath \<Rightarrow>
          (case import (module_file env safePath) of
             Inl err \<Rightarrow>
               (registry, logs @ [Log WARN (kind @ '' loading failed; skipped'')
                                    [(keyName, key), (''error'', err_message err)]])
           | Inr handler \<Rightarrow>
               (if key = ''__proto__'' then registry else assign key handler registry,
                logs @ [Log INFO (''loaded '' @ kind) [(keyName, key)]])))"

text \<open>
  \<^verbatim>\<open>for (const [tool, mod] of Object.entries(pluginConfig.pluginMap.normalizers))\<close>:
  the section of the configuration is an object, given as the list of its entries
  in the order of \<^verbatim>\<open>Object.entries\<close>, or it is absent (an empty section of the
  YAML file reads as \<^verbatim>\<open>null\<close>); then \<^verbatim>\<open>Object.entries\<close> throws at the top
  level of the module, outside every \<^verbatim>\<open>try\<close>.
\<close>

definition Object_entries :: "(string \<times> string) list option \<Rightarrow> js_error + (string \<times> string) list" where
  "Object_entries section =
     (case section of
        None \<Rightarrow> Inl (JsError (Some ''TypeError'') ''Cannot convert undefined or null to object'')
      | Some pluginMap \<Rightarrow> Inr pluginMap)"

definition load_normalizers ::
  "loader_env \<Rightarrow> (string \<Rightarrow> js_error + 'h) \<Rightarrow> (string \<times> string) list option
     \<Rightarrow> js_error + (string \<times> 'h) list \<times> log_entry list" where
  "load_normalizers env import section =
     (case Object_entries section of
        Inl err \<Rightarrow> Inl err
      | Inr pluginMap \<Rightarrow>
          Inr (foldl (\<lambda>st entry. load_entry env import ''normalizer'' ''tool'' entry st) ([], []) pluginMap))"

definition load_upserters ::
  "loader_env \<Rightarrow> (string \<Rightarrow> js_error + 'h) \<Rightarrow> (string \<times> string) list option
     \<Rightarrow> js_error + (string \<times> 'h) list \<times> log_entry list" where
  "load_upserters env import section =
     (case Object_entries section of
        Inl err \<Rightarrow> Inl err
      | Inr pluginMap \<Rightarrow>
          Inr (foldl (\<lambda>st entry. load_entry env import ''upserter'' ''evt'' entry st) ([], []) pluginMap))"

text \<open>
  Whether an entry gets past validation and import, and whether a file lies in a
  directory (below it, not beside it).
\<close>

definition passes :: "loader_env \<Rightarrow> (string \<Rightarrow> js_error + 'h) \<Rightarrow> string \<Rightarrow> bool" where
  "passes env import modPath =
     (case validatePluginPath env modPath ''plugins'' of
        Inl err \<Rightarrow> False
      | Inr safePath \<Rightarrow> \<not> isl (import (module_file env safePath)))"

definition inside_dir :: "string \<Rightarrow> string \<Rightarrow> bool" where
  "inside_dir base p = startsWith p (base @ ''/'')"

text \<open>
  A deployment for concrete runs: the service in \<^verbatim>\<open>/app/dist/\<close>, and a file
  system whose only module lies in \<^verbatim>\<open>/app/dist/plugins-extra/\<close>, a sibling of
  the plugin directory.
\<close>

definition app_env :: loader_env where
  "app_env = \<lparr>dirname = ''/app/dist/'', cwd = ''/app''\<rparr>"

definition sibling_fs :: "string \<Rightarrow> js_error + string" where
  "sibling_fs file =
     (if file = ''/app/dist/plugins-extra/mod.js'' then Inr ''handler of plugins-extra/mod''
      else Inl (JsError (Some ''Error'') ''Cannot find module''))"

section \<open>Buffers and strings\<close>

text \<open>
  A \<^verbatim>\<open>Buffer\<close> is a list of bytes, and so is a \<open>char list\<close>. A JavaScript
  string is kept as the bytes of its UTF-8 encoding, which is how Isabelle's
  \<open>string\<close> holds text; so a string that is sent as a message value goes on the
  wire as it is. \<^verbatim>\<open>buf.toString("utf8")\<close> is then the UTF-8 decoder seen through
  this encoding: a well-formed sequence is kept, and every maximal ill-formed part
  becomes U+FFFD, the three bytes \<^verbatim>\<open>EF BF BD\<close>. No byte order mark is removed.
\<close>

definition REPLACEMENT :: string where
  "REPLACEMENT = [CHR 0xEF, CHR 0xBF, CHR 0xBD]"

text \<open>
  The decoder of the Encoding Standard, which V8 follows: \<open>n\<close> continuation
  bytes are still needed, the next one must lie in \<open>lo..hi\<close>, and \<open>pend\<close> are
  the bytes of the sequence read so far. A byte that cannot continue the sequence
  ends it with one replacement character and is read again as a first byte.
\<close>

function utf8_decode :: "nat \<Rightarrow> nat \<Rightarrow> nat \<Rightarrow> string \<Rightarrow> string \<Rightarrow> string" where
  "utf8_decode 0 lo hi pend [] = []"
| "utf8_decode (Suc n) lo hi pend [] = REPLACEMENT"
| "utf8_decode 0 lo hi pend (c # cs) =
     (let b = (of_char c :: nat) in
      if b \<le> 0x7F then c # utf8_decode 0 0x80 0xBF [] cs
      else if 0xC2 \<le> b \<and> b \<le> 0xDF then utf8_decode 1 0x80 0xBF [c] cs
      else if 0xE0 \<le> b \<and> b \<le> 0xEF then
        utf8_decode 2 (if b = 0xE0 then 0xA0 else 0x80) (if b = 0xED then 0x9F else 0xBF) [c] cs
      else if 0xF0 \<le> b \<and> b \<le> 0xF4 then
        utf8_decode 3 (if b = 0xF0 then 0x90 else 0x80) (if b = 0xF4 then 0x8F else 0xBF) [c] cs
      else REPLACEMENT @ utf8_decode 0 0x80 0xBF [] cs)"
| "utf8_decode (Suc n) lo hi pend (c # cs) =
     (let b = (of_char c :: nat) in
      if \<not> (lo \<le> b \<and> b \<le> hi) then REPLACEMENT @ utf8_decode 0 0x80 0xBF [] (c # cs)
      else if n = 0 then pend @ [c] @ utf8_decode 0 0x80 0xBF [] cs
      else utf8_decode n 0x80 0xBF (pend @ [c]) cs)"
  by pat_completeness auto
termination
  by (relation "measure (\<lambda>(n, lo, hi, pend, cs). 2 * length cs + (if n = 0 then 0 else 1))") auto

definition toString_utf8 :: "string \<Rightarrow> string" where
  "toString_utf8 buf = utf8_decode 0 0x80 0xBF [] buf"

text \<open>
  Well-formed UTF-8 (the Unicode Standard, table 3-7), told byte by byte.
\<close>

definition byte_in :: "nat \<Rightarrow> nat \<Rightarrow> char \<Rightarrow> bool" where
  "byte_in lo hi c = (lo \<le> (of_char c :: nat) \<and> (of_char c :: nat) \<le> hi)"

fun well_formed_utf8 :: "string \<Rightarrow> bool" where
  "well_formed_utf8 [] = True"
| "well_formed_utf8 (c # cs) =
     (let b = (of_char c :: nat) in
      if b \<le> 0x7F then well_formed_utf8 cs
      else if 0xC2 \<le> b \<and> b \<le> 0xDF then
        (case cs of c1 # r \<Rightarrow> byte_in 0x80 0xBF c1 \<and> well_formed_utf8 r | _ \<Rightarrow> False)
      else if 0xE0 \<le> b \<and> b \<le> 0xEF then
        (case cs of
           c1 # c2 # r \<Rightarrow>
             byte_in (if b = 0xE0 then 0xA0 else 0x80) (if b = 0xED then 0x9F else 0xBF) c1
             \<and> byte_in 0x80 0xBF c2 \<and> well_formed_utf8 r
         | _ \<Rightarrow> False)
      else if 0xF0 \<le> b \<and> b \<le> 0xF4 then
        (case cs of
           c1 # c2 # c3 # r \<Rightarrow>
             byte_in (if b = 0xF0 then 0x90 else 0x80) (if b = 0xF4 then 0x8F else 0xBF) c1
             \<and> byte_in 0x80 0xBF c2 \<and> byte_in 0x80 0xBF c3 \<and> well_formed_utf8 r
         | _ \<Rightarrow> False)
      else False)"

section \<open>Service entry point: state\<close>

text \<open>
  A message handed to the producer, \<^verbatim>\<open>{ key, value }\<close>, and an element of the
  batch, \<^verbatim>\<open>{ topic, messages }\<close>.
\<close>

type_synonym message = "string option \<times> string"
type_synonym topic_messages = "string \<times> message list"

text \<open>
  The module-level state: the batch buffer, the set of in-flight upsert promises
  (a \<^verbatim>\<open>Set\<close> keeps insertion order; a promise is known by its identity, here
  the number of promises created before it), the Prometheus counters with their
  labels, the number of latency observations per stage (the observed durations are
  real time), the log, and \<open>world\<close>: everything outside the process, brokers and
  storage.
\<close>

record 'w service =
  batch :: "topic_messages list"
  inFlightUpserts :: "nat list"
  promises :: nat
  messagesConsumed :: "string \<Rightarrow> nat"
  messagesProduced :: nat
  processingErrors :: "string \<times> string \<Rightarrow> nat"
  upsertsSuccess :: nat
  latencies :: "string \<Rightarrow> nat"
  logged :: "log_entry list"
  world :: 'w

text \<open>
  The configuration and the collaborators. \<^verbatim>\<open>JSON.parse\<close> and
  \<^verbatim>\<open>JSON.stringify\<close> are library functions, and both can throw: the second
  one on a value that it cannot write, a \<^verbatim>\<open>BigInt\<close> or a cycle (the number
  type \<open>'n\<close> stands for every numeric value that a plugin may put into an
  event). An awaited promise, of an upserter or of the producer, is a function on
  the whole state: the promise's outcome and the state in which the caller
  resumes, which holds whatever the other tasks of the event loop did in the
  meantime. A call \<^verbatim>\<open>up(obj)\<close> of an upserter either throws at once or returns
  such a promise. \<open>backoff\<close> is the sleep between two attempts of \<open>retry\<close>.
\<close>

record ('n, 'w) service_env =
  rawTopic :: string
  domainTopic :: string
  dlqTopic :: string
  JSON_parse :: "string \<Rightarrow> js_error + 'n json"
  JSON_stringify :: "'n json \<Rightarrow> js_error + string"
  normalizers :: "(string \<times> ('n json \<Rightarrow> js_error + 'n json list option)) list"
  upserters :: "(string \<times> ('n json \<Rightarrow> js_error + ('w service \<Rightarrow> (js_error + unit) \<times> 'w service))) list"
  producer_sendBatch :: "topic_messages list \<Rightarrow> 'w service \<Rightarrow> (js_error + unit) \<times> 'w service"
  producer_send :: "string \<Rightarrow> message list \<Rightarrow> 'w service \<Rightarrow> (js_error + unit) \<times> 'w service"
  backoff :: "nat \<Rightarrow> 'w service \<Rightarrow> 'w service"

section \<open>core/schemas.ts\<close>

text \<open>
  \<^verbatim>\<open>RawMessageSchema.safeParse(obj).success\<close> and
  \<^verbatim>\<open>DomainEventSchema.safeParse(ev).success\<close>. \<^verbatim>\<open>z.unknown()\<close> accepts
  anything, an absent key too; \<^verbatim>\<open>z.record(z.unknown())\<close> asks for an object.
\<close>

definition RawMessageSchema_ok :: "'n json \<Rightarrow> bool" where
  "RawMessageSchema_ok obj =
     (z_object (Some obj) \<noteq> None
      \<and> z_string_min1 (getprop ''tool'' obj) \<noteq> None
      \<and> z_string_min1 (getprop ''runId'' obj) \<noteq> None)"

definition DomainEventSchema_ok :: "'n json \<Rightarrow> bool" where
  "DomainEventSchema_ok ev =
     (z_string (getprop ''specVersion'' ev) \<noteq> None
      \<and> (case z_object (getprop ''event'' ev) of
            None \<Rightarrow> False
          | Some e \<Rightarrow> z_string_min1 (map_of e ''event_type'') \<noteq> None
                     \<and> z_string_min1 (map_of e ''fingerprint'') \<noteq> None)
      \<and> z_object (getprop ''meta'' ev) \<noteq> None)"

section \<open>Service entry point: dispatch\<close>

text \<open>
  \<^verbatim>\<open>normalizers[obj.tool]\<close> on a registry that is a plain object
  (\<^verbatim>\<open>= {}\<close>): the registered handler, or a member inherited from
  \<^verbatim>\<open>Object.prototype\<close> when the name is one of its properties, or
  \<^verbatim>\<open>undefined\<close>. The key is absent when the property read is no string.
  (The prototype is \<^verbatim>\<open>Object.prototype\<close> unless the configuration has the
  key \<^verbatim>\<open>__proto__\<close>; the registries given to the dispatch are those of a
  configuration without it.)
\<close>

definition Object_prototype_names :: "string list" where
  "Object_prototype_names =
     [''constructor'', ''__defineGetter__'', ''__defineSetter__'', ''hasOwnProperty'',
      ''__lookupGetter__'', ''__lookupSetter__'', ''isPrototypeOf'', ''propertyIsEnumerable'',
      ''toString'', ''valueOf'', ''__proto__'', ''toLocaleString'']"

datatype 'h member = Own 'h | Inherited | Absent

definition member_of :: "(string \<times> 'h) list \<Rightarrow> string option \<Rightarrow> 'h member" where
  "member_of registry k =
     (case k of
        None \<Rightarrow> Absent
      | Some name \<Rightarrow>
          (case map_of registry name of
             Some h \<Rightarrow> Own h
           | None \<Rightarrow> if name \<in> set Object_prototype_names then Inherited else Absent))"

text \<open>
  \<^verbatim>\<open>v?.k\<close> where the code goes on only with a string.
\<close>

definition string_prop :: "string \<Rightarrow> 'n json option \<Rightarrow> string option" where
  "string_prop k v =
     (case v of Some (JObj ps) \<Rightarrow> (case map_of ps k of Some (JStr s) \<Rightarrow> Some s | _ \<Rightarrow> None)
      | _ \<Rightarrow> None)"

text \<open>
  \<^verbatim>\<open>batch.push({ topic: domainTopic, messages: [{ key: ev.event?.fingerprint,
  value: JSON.stringify(ev) }] })\<close>: the argument is evaluated first, so a throw
  of \<^verbatim>\<open>JSON.stringify\<close> leaves the buffer as it is. \<open>domain_entry\<close> is the
  element pushed for a candidate with the text that \<^verbatim>\<open>JSON.stringify\<close> gave.
\<close>

definition batch_push :: "topic_messages \<Rightarrow> 'w service \<Rightarrow> 'w service" where
  "batch_push entry st = st\<lparr>batch := batch st @ [entry]\<rparr>"

definition domain_entry :: "('n, 'w) service_env \<Rightarrow> 'n json \<Rightarrow> string \<Rightarrow> topic_messages" where
  "domain_entry env ev text =
     (domainTopic env, [(string_prop ''fingerprint'' (getprop ''event'' ev), text)])"

text \<open>
  The loop \<^verbatim>\<open>for (const ev of events)\<close>: validate, serialise, push, one
  candidate after the other; the first throw ends the loop.
\<close>

fun push_events :: "('n, 'w) service_env \<Rightarrow> 'n json list \<Rightarrow> 'w service \<Rightarrow> (js_error + unit) \<times> 'w service" where
  "push_events env [] st = (Inr (), st)"
| "push_events env (ev # evs) st =
     (if \<not> DomainEventSchema_ok ev
      then (Inl (JsError (Some ''Error'') ''Domain event schema violation''), st)
      else
        (case JSON_stringify env ev of
           Inl err \<Rightarrow> (Inl err, st)
         | Inr text \<Rightarrow> push_events env evs (batch_push (domain_entry env ev text) st)))"

text \<open>
  \<^verbatim>\<open>msgLatency.labels(stage).observe(...)\<close>.
\<close>

definition observe :: "string \<Rightarrow> 'w service \<Rightarrow> 'w service" where
  "observe stage st = st\<lparr>latencies := (latencies st)(stage := latencies st stage + 1)\<rparr>"

text \<open>
  The branch \<^verbatim>\<open>topic === rawTopic\<close> of \<^verbatim>\<open>handle\<close>. An inherited member
  in the place of a normalizer makes the attempt throw: \<^verbatim>\<open>toString\<close> returns a
  string whose first character fails the schema, the others throw a
  \<^verbatim>\<open>TypeError\<close>.
\<close>

definition handle_raw :: "('n, 'w) service_env \<Rightarrow> 'n json \<Rightarrow> 'w service \<Rightarrow> (js_error + unit) \<times> 'w service" where
  "handle_raw env obj st =
     (if \<not> RawMessageSchema_ok obj
      then (Inl (JsError (Some ''Error'') ''RAW message schema violation''), st)
      else
        (case member_of (normalizers env) (string_prop ''tool'' (Some obj)) of
           Absent \<Rightarrow> (Inr (), observe ''raw'' st)
         | Inherited \<Rightarrow>
             (if string_prop ''tool'' (Some obj) = Some ''toString''
              then (Inl (JsError (Some ''Error'') ''Domain event schema violation''), st)
              else (Inl (JsError (Some ''TypeError'') ''not a normalizer''), st))
         | Own normalizer \<Rightarrow>
             (case normalizer obj of
                Inl err \<Rightarrow> (Inl err, st)
              | Inr res \<Rightarrow>
                  (case push_events env (case res of None \<Rightarrow> [] | Some events \<Rightarrow> events) st of
                     (Inl err, st') \<Rightarrow> (Inl err, st')
                   | (Inr u, st') \<Rightarrow> (Inr (), observe ''raw'' st')))))"

text \<open>
  \<^verbatim>\<open>Set.prototype.add\<close> and \<^verbatim>\<open>Set.prototype.delete\<close>.
\<close>

definition set_add :: "nat \<Rightarrow> nat list \<Rightarrow> nat list" where
  "set_add p ps = (if p \<in> set ps then ps else ps @ [p])"

definition set_delete :: "nat \<Rightarrow> nat list \<Rightarrow> nat list" where
  "set_delete p ps = removeAll p ps"

text \<open>
  The branch \<^verbatim>\<open>topic === domainTopic\<close>:
  \<^verbatim>\<open>const p = up(obj).catch(e=>{throw e;}); inFlightUpserts.add(p); await p;
  inFlightUpserts.delete(p); upsertsSuccess.labels("neo4j").inc(); ...\<close>.
  A throw of \<^verbatim>\<open>up(obj)\<close> itself leaves the function before there is a
  promise to add. A rejected \<open>p\<close> makes \<^verbatim>\<open>await p\<close> throw, which leaves
  the function too.
\<close>

definition handle_domain :: "('n, 'w) service_env \<Rightarrow> 'n json \<Rightarrow> 'w service \<Rightarrow> (js_error + unit) \<times> 'w service" where
  "handle_domain env obj st =
     (if \<not> DomainEventSchema_ok obj
      then (Inl (JsError (Some ''Error'') ''Domain event schema violation''), st)
      else
        (case member_of (upserters env) (string_prop ''event_type'' (getprop ''event'' obj)) of
           Absent \<Rightarrow> (Inr (), st)
         | Inherited \<Rightarrow> (Inl (JsError (Some ''TypeError'') ''not an upserter''), st)
         | Own up \<Rightarrow>
             (case up obj of
                Inl err \<Rightarrow> (Inl err, st)
              | Inr settle \<Rightarrow>
                  (let p = promises st;
                       st1 = st\<lparr>promises := p + 1, inFlightUpserts := set_add p (inFlightUpserts st)\<rparr>
                   in case settle st1 of
                        (Inl err, st2) \<Rightarrow> (Inl err, st2)
                      | (Inr u, st2) \<Rightarrow>
                          (Inr (), observe ''upsert''
                             (st2\<lparr>inFlightUpserts := set_delete p (inFlightUpserts st2),
                                  upsertsSuccess := upsertsSuccess st2 + 1\<rparr>))))))"

text \<open>
  \<^verbatim>\<open>handle\<close>, one attempt at a message.
\<close>

definition handle :: "('n, 'w) service_env \<Rightarrow> string \<Rightarrow> string \<Rightarrow> 'w service \<Rightarrow> (js_error + unit) \<times> 'w service" where
  "handle env tpc rawBytes st =
     (let st1 = st\<lparr>messagesConsumed := (messagesConsumed st)(tpc := messagesConsumed st tpc + 1)\<rparr>
      in case JSON_parse env rawBytes of
           Inl err \<Rightarrow> (Inl err, st1)
         | Inr obj \<Rightarrow>
             if tpc = rawTopic env then handle_raw env obj st1
             else if tpc = domainTopic env then handle_domain env obj st1
             else (Inr (), st1))"

text \<open>
  \<^verbatim>\<open>eachMessage\<close>. \<^verbatim>\<open>message.value\<close> is a \<^verbatim>\<open>Buffer\<close> or
  \<^verbatim>\<open>null\<close>; a \<^verbatim>\<open>Buffer\<close> is an object and so truthy, also when it is
  empty. The result has no error: the rejection of \<^verbatim>\<open>retry\<close> is caught, and the
  DLQ publish inside the handler has its own \<^verbatim>\<open>try\<close>/\<^verbatim>\<open>catch\<close>. (The
  consumer does not wait for this chain; the state is the one after it has run.)
\<close>

definition eachMessage :: "('n, 'w) service_env \<Rightarrow> string \<Rightarrow> string option \<Rightarrow> 'w service \<Rightarrow> 'w service" where
  "eachMessage env tpc message_value st =
     (case message_value of
        None \<Rightarrow> st
      | Some buf \<Rightarrow>
          (let rawBytes = toString_utf8 buf in
           case retry (handle env tpc rawBytes) (backoff env) \<lparr>retries = Some 2, baseMs = None\<rparr> st of
             (Inr u, st1, n) \<Rightarrow> st1
           | (Inl err, st1, n) \<Rightarrow>
               (let label = (tpc, case err_name err of None \<Rightarrow> ''unknown'' | Some nm \<Rightarrow> nm);
                    st2 = st1\<lparr>processingErrors := (processingErrors st1)(label := processingErrors st1 label + 1),
                              logged := logged st1 @ [Log ERROR ''failed permanently, sending to DLQ''
                                                        [(''err'', err_message err)]]\<rparr>
                in case producer_send env (dlqTopic env) [(None, rawBytes)] st2 of
                     (Inr u, st3) \<Rightarrow> st3
                   | (Inl dlqErr, st3) \<Rightarrow>
                       st3\<lparr>logged := logged st3 @ [Log ERROR ''DLQ publish failed''
                                                     [(''dlqErr'', err_message dlqErr)]]\<rparr>)))"

section \<open>Service entry point: batch flush\<close>

text \<open>
  \<^verbatim>\<open>sending.reduce((acc, tm) => acc + tm.messages.length, 0)\<close>.
\<close>

definition producedCount :: "topic_messages list \<Rightarrow> nat" where
  "producedCount sending = foldl (\<lambda>acc tm. acc + length (snd tm)) 0 sending"

text \<open>
  \<^verbatim>\<open>flushBatch\<close>, in two parts: what runs before the first \<^verbatim>\<open>await\<close>
  (the test for an empty buffer and \<^verbatim>\<open>batch.splice(0, batch.length)\<close>) and the
  retried send with the counter after it.
\<close>

definition flush_send :: "('n, 'w) service_env \<Rightarrow> topic_messages list \<Rightarrow> 'w service \<Rightarrow> (js_error + unit) \<times> 'w service" where
  "flush_send env sending st =
     (case retry (producer_sendBatch env sending) (backoff env) \<lparr>retries = None, baseMs = None\<rparr> st of
        (Inl err, st1, n) \<Rightarrow> (Inl err, st1)
      | (Inr u, st1, n) \<Rightarrow>
          (Inr (), st1\<lparr>messagesProduced := messagesProduced st1 + producedCount sending\<rparr>))"

definition flushBatch :: "('n, 'w) service_env \<Rightarrow> 'w service \<Rightarrow> (js_error + unit) \<times> 'w service" where
  "flushBatch env st =
     (if batch st = [] then (Inr (), st)
      else flush_send env (batch st) (st\<lparr>batch := []\<rparr>))"

text \<open>
  Pushing a list of entries, in order.
\<close>

definition push_all :: "topic_messages list \<Rightarrow> 'w service \<Rightarrow> 'w service" where
  "push_all es st = foldl (\<lambda>s e. batch_push e s) st es"

text \<open>
  What a flush called in the state \<open>st\<close> has to do: its \<open>(k+1)\<close>-th attempt at
  the send is an invocation of \<^verbatim>\<open>sendBatch\<close> on the whole buffer of \<open>st\<close>,
  the first attempt starting in \<open>st\<close> with the buffer already empty.
\<close>

definition send_attempt :: "('n, 'w) service_env \<Rightarrow> 'w service \<Rightarrow> nat \<Rightarrow> (js_error + unit) \<times> 'w service" where
  "send_attempt env st k =
     invocation (producer_sendBatch env (batch st)) (backoff env)
       \<lparr>retries = None, baseMs = None\<rparr> (st\<lparr>batch := []\<rparr>) k"

section \<open>A broker, a storage and a plugin for concrete runs\<close>

text \<open>
  The world of the examples: what the broker received through
  \<^verbatim>\<open>sendBatch\<close> and through \<^verbatim>\<open>send\<close>, and the number of calls of
  \<^verbatim>\<open>sendBatch\<close> that it will still refuse.

  \<open>accepting_sendBatch during\<close> is a producer that takes every batch: the broker
  has the batch when \<^verbatim>\<open>sendBatch\<close> is called, and \<open>during\<close> is what the rest
  of the event loop does before the promise settles: dispatches that push, a tick
  of the flush timer. \<open>flaky_sendBatch\<close> refuses while the broker has outages
  left. Then a producer that accepts every single message and one that rejects
  every message.
\<close>

record broker =
  batches :: "topic_messages list list"
  delivered :: "(string \<times> message list) list"
  outages :: nat

definition accepting_sendBatch ::
  "(broker service \<Rightarrow> broker service) \<Rightarrow> topic_messages list \<Rightarrow> broker service
     \<Rightarrow> (js_error + unit) \<times> broker service" where
  "accepting_sendBatch during tms st =
     (Inr (), during (st\<lparr>world := (world st)\<lparr>batches := batches (world st) @ [tms]\<rparr>\<rparr>))"

definition flaky_sendBatch ::
  "topic_messages list \<Rightarrow> broker service \<Rightarrow> (js_error + unit) \<times> broker service" where
  "flaky_sendBatch tms st =
     (if outages (world st) > 0
      then (Inl (JsError (Some ''KafkaJSError'') ''request timed out''),
            st\<lparr>world := (world st)\<lparr>outages := outages (world st) - 1\<rparr>\<rparr>)
      else accepting_sendBatch (push_all []) tms st)"

definition recording_send ::
  "string \<Rightarrow> message list \<Rightarrow> broker service \<Rightarrow> (js_error + unit) \<times> broker service" where
  "recording_send tpc msgs st =
     (Inr (), st\<lparr>world := (world st)\<lparr>delivered := delivered (world st) @ [(tpc, msgs)]\<rparr>\<rparr>)"

definition broker_down ::
  "string \<Rightarrow> message list \<Rightarrow> broker service \<Rightarrow> (js_error + unit) \<times> broker service" where
  "broker_down tpc msgs st = (Inl (JsError (Some ''KafkaJSConnectionError'') ''broker down''), st)"

text \<open>
  \<^verbatim>\<open>JSON.stringify\<close> on values whose strings need no escaping and
  \<^verbatim>\<open>JSON.parse\<close> on the texts of the examples; every other text used below
  (the empty text, a lone brace, a lone replacement character) is not JSON.
\<close>

definition quoted :: "string \<Rightarrow> string" where
  "quoted s = CHR 0x22 # s @ [CHR 0x22]"

fun example_stringify :: "string json \<Rightarrow> string" where
  "example_stringify JNull = ''null''"
| "example_stringify (JBool b) = (if b then ''true'' else ''false'')"
| "example_stringify (JNum n) = n"
| "example_stringify (JStr s) = quoted s"
| "example_stringify (JArr xs) = ''['' @ join '','' (map example_stringify xs) @ '']''"
| "example_stringify (JObj ps) =
     ''{'' @ join '','' (map (\<lambda>p. quoted (fst p) @ '':'' @ example_stringify (snd p)) ps) @ ''}''"

definition good_event :: "string json" where
  "good_event = JObj [(''specVersion'', JStr ''1.0''),
     (''event'', JObj [(''event_type'', JStr ''SENSOR_READING''), (''fingerprint'', JStr ''f1'')]),
     (''meta'', JObj [])]"

definition bad_event :: "string json" where
  "bad_event = JObj [(''specVersion'', JStr ''1.0''),
     (''event'', JObj [(''event_type'', JStr ''SENSOR_READING'')]),
     (''meta'', JObj [])]"

definition raw_pair :: "string json" where
  "raw_pair = JObj [(''tool'', JStr ''pair''), (''runId'', JStr ''r1'')]"

text \<open>
  An event that passes the envelope schema and that \<^verbatim>\<open>JSON.stringify\<close> refuses:
  its \<^verbatim>\<open>meta\<close> holds the \<^verbatim>\<open>BigInt\<close> written \<^verbatim>\<open>1n\<close>. And a raw message for
  the plugin that returns it.
\<close>

definition unwritable_event :: "string json" where
  "unwritable_event = JObj [(''specVersion'', JStr ''1.0''),
     (''event'', JObj [(''event_type'', JStr ''SENSOR_READING''), (''fingerprint'', JStr ''f2'')]),
     (''meta'', JObj [(''count'', JNum ''1n'')])]"

definition raw_bigint :: "string json" where
  "raw_bigint = JObj [(''tool'', JStr ''bigint''), (''runId'', JStr ''r2'')]"

definition example_JSON_stringify :: "string json \<Rightarrow> js_error + string" where
  "example_JSON_stringify v =
     (if v = unwritable_event
      then Inl (JsError (Some ''TypeError'') ''Do not know how to serialize a BigInt'')
      else Inr (example_stringify v))"

definition example_parse :: "string \<Rightarrow> js_error + string json" where
  "example_parse text =
     (if text = example_stringify raw_pair then Inr raw_pair
      else if text = example_stringify raw_bigint then Inr raw_bigint
      else if text = example_stringify good_event then Inr good_event
      else Inl (JsError (Some ''SyntaxError'') ''Unexpected token''))"

definition pair_normalizer :: "string json \<Rightarrow> js_error + string json list option" where
  "pair_normalizer raw = Inr (Some [good_event, bad_event])"

definition bigint_normalizer :: "string json \<Rightarrow> js_error + string json list option" where
  "bigint_normalizer raw = Inr (Some [unwritable_event, bad_event])"

text \<open>
  An upserter whose storage refuses, the environment and the initial state.
\<close>

definition refused :: "broker service \<Rightarrow> (js_error + unit) \<times> broker service" where
  "refused st = (Inl (JsError (Some ''Neo4jError'') ''connection refused''), st)"

definition storage_down ::
  "string json \<Rightarrow> js_error + (broker service \<Rightarrow> (js_error + unit) \<times> broker service)" where
  "storage_down ev = Inr refused"

text \<open>A file system with two plugins in the plugin directory.\<close>

definition two_plugins_fs :: "string \<Rightarrow> js_error + string" where
  "two_plugins_fs file =
     (if file = ''/app/dist/plugins/a/normalizer.js'' then Inr ''normalizer a''
      else if file = ''/app/dist/plugins/b/normalizer.js'' then Inr ''normalizer b''
      else Inl (JsError (Some ''Error'') ''Cannot find module''))"

definition example_env :: "(string, broker) service_env" where
  "example_env = \<lparr>rawTopic = ''tasks.raw-output'', domainTopic = ''events.domain'',
     dlqTopic = ''events.dlq'',
     JSON_parse = example_parse, JSON_stringify = example_JSON_stringify,
     normalizers = [(''pair'', pair_normalizer), (''bigint'', bigint_normalizer)],
     upserters = [(''SENSOR_READING'', storage_down)],
     producer_sendBatch = accepting_sendBatch (push_all []),
     producer_send = recording_send,
     backoff = no_wait\<rparr>"

definition idle :: "broker service" where
  "idle = \<lparr>batch = [], inFlightUpserts = [], promises = 0, messagesConsumed = (\<lambda>t. 0),
     messagesProduced = 0, processingErrors = (\<lambda>l. 0), upsertsSuccess = 0,
     latencies = (\<lambda>s. 0), logged = [],
     world = \<lparr>batches = [], delivered = [], outages = 0\<rparr>\<rparr>"

text \<open>
  For the flush: buffer entries, a broker with \<open>n\<close> outages ahead, a producer
  during whose send the entries \<open>mid\<close> are pushed, and one during whose send the
  entries \<open>mid\<close> are pushed and the flush timer then ticks (the send of that
  flush seeing \<open>mid2\<close> pushed).
\<close>

definition queued :: "string \<Rightarrow> topic_messages" where
  "queued f = (''events.domain'', [(Some f, ''{}'')])"

definition outage :: "nat \<Rightarrow> broker service" where
  "outage n = idle\<lparr>world := (world idle)\<lparr>outages := n\<rparr>\<rparr>"

definition flaky_env :: "(string, broker) service_env" where
  "flaky_env = example_env\<lparr>producer_sendBatch := flaky_sendBatch\<rparr>"

definition late_env :: "topic_messages list \<Rightarrow> (string, broker) service_env" where
  "late_env mid = example_env\<lparr>producer_sendBatch := accepting_sendBatch (push_all mid)\<rparr>"

definition tick_env :: "topic_messages list \<Rightarrow> topic_messages list \<Rightarrow> (string, broker) service_env" where
  "tick_env mid mid2 =
     example_env\<lparr>producer_sendBatch :=
       accepting_sendBatch (\<lambda>s. snd (flushBatch (late_env mid2) (push_all mid s)))\<rparr>"

section \<open>Fingerprint: order independence\<close>

lemma map_of_perm:
  assumes "distinct (map fst m)" and "mset m' = mset m"
  shows "map_of m' = map_of m"
proof -
  have "mset (map fst m') = mset (map fst m)"
    using assms(2) by (metis mset_map)
  then have d: "distinct (map fst m')"
    using assms(1) by (metis mset_eq_imp_distinct_iff)
  have "set m' = set m"
    using assms(2) by (metis mset_eq_setD)
  with d assms(1) show ?thesis
    by (metis map_of_inject_set)
qed

lemma filter_eq_distinct:
  "distinct zs \<Longrightarrow> k \<in> set zs \<Longrightarrow> filter (\<lambda>x. k = x) zs = [k]"
proof (induction zs)
  case Nil
  then show ?case by simp
next
  case (Cons z zs)
  show ?case
  proof (cases "k = z")
    case True
    with Cons.prems have "filter (\<lambda>x. k = x) zs = []"
      by (auto simp: filter_empty_conv)
    with True show ?thesis by simp
  next
    case False
    with Cons show ?thesis by simp
  qed
qed

lemma sort_key_perm:
  assumes "mset ys = mset xs" and "distinct xs" and "inj f"
  shows "sort_key f ys = sort_key f xs"
proof (rule properties_for_sort_key)
  show "mset (sort_key f xs) = mset ys"
    using assms(1) by simp
  show "sorted (map f (sort_key f xs))"
    by simp
  fix k
  assume k: "k \<in> set (sort_key f xs)"
  have dy: "distinct ys"
    using assms(1,2) by (metis mset_eq_imp_distinct_iff)
  have ky: "k \<in> set ys"
    using k assms(1) by (metis mset_eq_setD set_sort)
  have eq: "(\<lambda>x. f k = f x) = (\<lambda>x. k = x)"
    using assms(3) by (auto simp: inj_def)
  have "filter (\<lambda>x. k = x) (sort_key f xs) = [k]"
    using k assms(2) by (intro filter_eq_distinct) simp_all
  moreover have "filter (\<lambda>x. k = x) ys = [k]"
    using dy ky by (rule filter_eq_distinct)
  ultimately show "filter (\<lambda>x. f k = f x) (sort_key f xs) = filter (\<lambda>x. f k = f x) ys"
    unfolding eq by simp
qed

lemma inj_sort_order: "inj sort_order"
  by (simp add: inj_def sort_order_def)

lemma ordered_perm:
  assumes "wf_obj m" and "mset m' = mset m"
  shows "ordered toStr m' = ordered toStr m"
proof -
  have k: "mset (Object_keys m') = mset (Object_keys m)"
    unfolding Object_keys_def using assms(2) by (metis mset_map)
  have "distinct (Object_keys m)"
    using assms(1) by (simp add: wf_obj_def Object_keys_def)
  with k have "sort_key sort_order (Object_keys m') = sort_key sort_order (Object_keys m)"
    by (rule sort_key_perm) (rule inj_sort_order)
  moreover have "map_of m' = map_of m"
    using assms(1) unfolding wf_obj_def by (rule map_of_perm) (rule assms(2))
  ultimately show ?thesis
    by (simp add: ordered_def)
qed

text \<open>
  C1. For every field map \<open>m\<close> (an object: distinct keys) and every reordering
  \<open>m'\<close> of its properties, \<open>fingerprint\<close> returns the same string on both:
  the result depends on the set of (key, value) pairs only, not on insertion order.
  This holds for every hash function and every rendering of values.
\<close>

theorem fingerprint_perm:
  assumes "wf_obj m" and "mset m' = mset m"
  shows "fingerprint sha256hex toStr m' = fingerprint sha256hex toStr m"
  unfolding fingerprint_def using ordered_perm [OF assms] by (rule arg_cong)

theorem fingerprint_perm_witness:
  "wf_obj [(''b'', JStr ''2''), (''a'', JStr ''1'' :: unit json)]
   \<and> mset [(''a'', JStr ''1''), (''b'', JStr ''2'' :: unit json)]
       = mset [(''b'', JStr ''2''), (''a'', JStr ''1'')]
   \<and> fingerprint id (js_toString (\<lambda>n. [])) [(''a'', JStr ''1''), (''b'', JStr ''2'' :: unit json)]
     = fingerprint id (js_toString (\<lambda>n. [])) [(''b'', JStr ''2''), (''a'', JStr ''1'' :: unit json)]"
proof -
  have w: "wf_obj [(''b'', JStr ''2''), (''a'', JStr ''1'' :: unit json)]"
    by (simp add: wf_obj_def)
  have p: "mset [(''a'', JStr ''1''), (''b'', JStr ''2'' :: unit json)]
       = mset [(''b'', JStr ''2''), (''a'', JStr ''1'')]"
    by (simp add: add_mset_commute)
  show ?thesis
    by (intro conjI) (rule w, rule p, rule fingerprint_perm [OF w p])
qed


section \<open>Fingerprint: when different maps give different fingerprints\<close>

lemma join_Cons: "join sep (x # xs) = x @ (if xs = [] then [] else sep @ join sep xs)"
  by (cases xs) simp_all

lemma first_occurrence_split:
  assumes "c \<notin> set xs" and "c \<notin> set xs'" and "xs @ c # ys = xs' @ c # ys'"
  shows "xs = xs' \<and> ys = ys'"
  using assms
proof (induction xs arbitrary: xs')
  case Nil
  then show ?case by (cases xs') auto
next
  case (Cons x xs)
  then show ?case by (cases xs') auto
qed

lemma value_tail_split:
  assumes "c \<notin> set v" and "c \<notin> set v'"
    and "t = [] \<or> (\<exists>r. t = c # r)" and "t' = [] \<or> (\<exists>r. t' = c # r)"
    and "v @ t = v' @ t'"
  shows "v = v' \<and> t = t'"
proof -
  consider "t = []" "t' = []" | r where "t = []" "t' = c # r"
    | r where "t = c # r" "t' = []" | r r' where "t = c # r" "t' = c # r'"
    using assms(3,4) by blast
  then show ?thesis
  proof cases
    case 1
    with assms(5) show ?thesis by simp
  next
    case 2
    with assms(5) have "c \<in> set v" by simp
    with assms(1) show ?thesis by simp
  next
    case 3
    with assms(5) have "c \<in> set v'" by (metis append_Nil2 in_set_conv_decomp)
    with assms(2) show ?thesis by simp
  next
    case 4
    with assms(5) have "v @ c # r = v' @ c # r'" by simp
    with assms(1,2) have "v = v' \<and> r = r'" by (rule first_occurrence_split)
    with 4 show ?thesis by simp
  qed
qed

lemma enc_Cons:
  "join ''|'' (map piece (p # ps)) =
     fst p @ CHR ''='' # (snd p @ (if ps = [] then [] else ''|'' @ join ''|'' (map piece ps)))"
  by (cases ps) (simp_all add: piece_def)

lemma enc_not_Nil: "join ''|'' (map piece (p # ps)) \<noteq> []"
  unfolding enc_Cons by simp

lemma pieces_inj:
  assumes "list_all (\<lambda>p. CHR ''='' \<notin> set (fst p) \<and> CHR ''|'' \<notin> set (snd p)) ps"
    and "list_all (\<lambda>p. CHR ''='' \<notin> set (fst p) \<and> CHR ''|'' \<notin> set (snd p)) qs"
    and "join ''|'' (map piece ps) = join ''|'' (map piece qs)"
  shows "ps = qs"
  using assms
proof (induction ps arbitrary: qs)
  case Nil
  show ?case
  proof (cases qs)
    case (Cons q qs')
    with Nil.prems(3) have "join ''|'' (map piece (q # qs')) = []" by simp
    then show ?thesis using enc_not_Nil by blast
  qed simp
next
  case (Cons p ps)
  show ?case
  proof (cases qs)
    case Nil
    with Cons.prems(3) have "join ''|'' (map piece (p # ps)) = []" by simp
    then show ?thesis using enc_not_Nil by blast
  next
    case (Cons q qs')
    define t where "t = (if ps = [] then [] else ''|'' @ join ''|'' (map piece ps))"
    define t' where "t' = (if qs' = [] then [] else ''|'' @ join ''|'' (map piece qs'))"
    have e: "fst p @ CHR ''='' # (snd p @ t) = fst q @ CHR ''='' # (snd q @ t')"
      using Cons.prems(3) unfolding Cons enc_Cons t_def [symmetric] t'_def [symmetric] .
    have kf: "CHR ''='' \<notin> set (fst p)" "CHR ''='' \<notin> set (fst q)"
      and vf: "CHR ''|'' \<notin> set (snd p)" "CHR ''|'' \<notin> set (snd q)"
      using Cons.prems(1,2) Cons by simp_all
    from kf e have "fst p = fst q \<and> snd p @ t = snd q @ t'"
      by (rule first_occurrence_split)
    then have k: "fst p = fst q" and r: "snd p @ t = snd q @ t'"
      by simp_all
    have "snd p = snd q \<and> t = t'"
      by (rule value_tail_split [OF vf _ _ r]) (simp_all add: t_def t'_def)
    then have v: "snd p = snd q" and tt: "t = t'" by simp_all
    have "join ''|'' (map piece ps) = join ''|'' (map piece qs')"
      using tt by (cases "ps = []"; cases "qs' = []") (simp_all add: t_def t'_def)
    moreover have "list_all (\<lambda>p. CHR ''='' \<notin> set (fst p) \<and> CHR ''|'' \<notin> set (snd p)) ps"
      "list_all (\<lambda>p. CHR ''='' \<notin> set (fst p) \<and> CHR ''|'' \<notin> set (snd p)) qs'"
      using Cons.prems(1,2) Cons by simp_all
    ultimately have "ps = qs'" using Cons.IH by blast
    with k v Cons show ?thesis by (simp add: prod_eq_iff)
  qed
qed


lemma ordered_pieces:
  "ordered toStr obj =
     join ''|'' (map piece (map (\<lambda>k. (k, template toStr (map_of obj k))) (sort_key sort_order (Object_keys obj))))"
  by (simp add: ordered_def piece_def comp_def)

lemma delimiter_free_pieces:
  assumes "delimiter_free toStr obj"
  shows "list_all (\<lambda>p. CHR ''='' \<notin> set (fst p) \<and> CHR ''|'' \<notin> set (snd p))
           (map (\<lambda>k. (k, template toStr (map_of obj k))) (sort_key sort_order (Object_keys obj)))"
proof -
  have "CHR ''='' \<notin> set k \<and> CHR ''|'' \<notin> set (template toStr (map_of obj k))"
    if "k \<in> set (Object_keys obj)" for k
  proof -
    from that obtain v where v: "map_of obj k = Some v"
      unfolding Object_keys_def by (metis domIff dom_map_of_conv_image_fst not_Some_eq set_map)
    then have "(k, v) \<in> set obj" by (rule map_of_SomeD)
    with assms have "CHR ''='' \<notin> set k \<and> CHR ''|'' \<notin> set (toStr v)"
      unfolding delimiter_free_def list_all_iff by blast
    with v show ?thesis by (simp add: template_def)
  qed
  then show ?thesis by (simp add: list_all_iff)
qed

lemma ordered_inj:
  assumes "delimiter_free toStr m1" and "delimiter_free toStr m2"
    and "ordered toStr m1 = ordered toStr m2"
  shows "rendered toStr m1 = rendered toStr m2"
proof -
  let ?g1 = "\<lambda>k. (k, template toStr (map_of m1 k))"
  let ?g2 = "\<lambda>k. (k, template toStr (map_of m2 k))"
  have eq: "map ?g1 (sort_key sort_order (Object_keys m1)) = map ?g2 (sort_key sort_order (Object_keys m2))"
    using assms(3) unfolding ordered_pieces
    by (rule pieces_inj [OF delimiter_free_pieces [OF assms(1)] delimiter_free_pieces [OF assms(2)]])
  then have "map fst (map ?g1 (sort_key sort_order (Object_keys m1))) = map fst (map ?g2 (sort_key sort_order (Object_keys m2)))"
    by simp
  then have ks: "sort_key sort_order (Object_keys m1) = sort_key sort_order (Object_keys m2)"
    by (simp add: comp_def)
  then have "set (sort_key sort_order (Object_keys m1)) = set (sort_key sort_order (Object_keys m2))" by simp
  then have kset: "set (Object_keys m1) = set (Object_keys m2)" by simp
  show ?thesis
  proof
    fix k
    show "rendered toStr m1 k = rendered toStr m2 k"
    proof (cases "k \<in> set (Object_keys m1)")
      case False
      with kset have "k \<notin> fst ` set m1" "k \<notin> fst ` set m2"
        by (simp_all add: Object_keys_def)
      then have "map_of m1 k = None" "map_of m2 k = None"
        by (simp_all add: map_of_eq_None_iff)
      then show ?thesis by (simp add: rendered_def)
    next
      case True
      with kset obtain v1 v2 where v: "map_of m1 k = Some v1" "map_of m2 k = Some v2"
        unfolding Object_keys_def
        by (metis domIff dom_map_of_conv_image_fst not_Some_eq set_map)
      from True have "k \<in> set (sort_key sort_order (Object_keys m1))" by simp
      with eq ks have "?g1 k = ?g2 k" by simp
      with v show ?thesis by (simp add: rendered_def template_def)
    qed
  qed
qed

text \<open>
  C9 (as amended). The pre-hash encoding is injective only up to the rendering of
  values and only where the delimiters cannot be confused with content: for field
  maps whose keys contain no \<open>=\<close> and whose rendered values contain no \<open>|\<close>,
  two maps that differ after rendering (a different key set, or a key whose value
  renders to a different string) have different fingerprints, the hash being
  taken as collision-free (injective).
\<close>

theorem fingerprint_distinct:
  assumes "inj sha256hex"
    and "delimiter_free toStr m1" and "delimiter_free toStr m2"
    and "rendered toStr m1 \<noteq> rendered toStr m2"
  shows "fingerprint sha256hex toStr m1 \<noteq> fingerprint sha256hex toStr m2"
proof
  assume "fingerprint sha256hex toStr m1 = fingerprint sha256hex toStr m2"
  with assms(1) have "ordered toStr m1 = ordered toStr m2"
    unfolding fingerprint_def by (rule injD)
  with assms(2,3) have "rendered toStr m1 = rendered toStr m2"
    by (rule ordered_inj)
  with assms(4) show False by contradiction
qed

theorem fingerprint_distinct_witness:
  "inj (id :: string \<Rightarrow> string)
   \<and> delimiter_free id [(''a'', ''1'')] \<and> delimiter_free id [(''a'', ''2'')]
   \<and> rendered id [(''a'', ''1'')] \<noteq> rendered id [(''a'', ''2'')]
   \<and> fingerprint id id [(''a'', ''1'')] \<noteq> fingerprint id id [(''a'', ''2'')]"
proof -
  have i: "inj (id :: string \<Rightarrow> string)" by simp
  have d1: "delimiter_free id [(''a'', ''1'')]" by (simp add: delimiter_free_def)
  have d2: "delimiter_free id [(''a'', ''2'')]" by (simp add: delimiter_free_def)
  have "rendered id [(''a'', ''1'')] ''a'' \<noteq> rendered id [(''a'', ''2'')] ''a''"
    by (simp add: rendered_def)
  then have r: "rendered id [(''a'', ''1'')] \<noteq> rendered id [(''a'', ''2'')]"
    by (rule contrapos_nn) simp
  show ?thesis
    by (intro conjI) (rule i, rule d1, rule d2, rule r, rule fingerprint_distinct [OF i d1 d2 r])
qed

text \<open>
  C9 as stated fails: the objects \<^verbatim>\<open>{a: "1|b=2"}\<close> and
  \<^verbatim>\<open>{a: "1", b: "2"}\<close> are different field maps with the same pre-hash
  encoding \<^verbatim>\<open>a=1|b=2\<close>, hence the same fingerprint under every hash, also
  under a collision-free one (here the identity).
\<close>

theorem fingerprint_collision:
  "wf_obj [(''a'', ''1|b=2'')] \<and> wf_obj [(''a'', ''1''), (''b'', ''2'')]
   \<and> map_of [(''a'', ''1|b=2'')] ''b'' \<noteq> map_of [(''a'', ''1''), (''b'', ''2'')] ''b''
   \<and> ordered id [(''a'', ''1|b=2'')] = ''a=1|b=2''
   \<and> ordered id [(''a'', ''1''), (''b'', ''2'')] = ''a=1|b=2''
   \<and> fingerprint id id [(''a'', ''1|b=2'')] = fingerprint id id [(''a'', ''1''), (''b'', ''2'')]"
  by (simp add: wf_obj_def fingerprint_def ordered_def Object_keys_def template_def
      sort_order_def less_eq_prod_def)

section \<open>Retry: number of invocations and result\<close>

lemma before_shift:
  "before fn sleep b a s (Suc k) = before fn sleep b (Suc a) (sleep (b * 2 ^ a) (snd (fn s))) k"
  by (induction k) simp_all

lemma retry_from_success:
  assumes "\<forall>j<k. isl (fst (fn (before fn sleep b a s j)))"
    and "fst (fn (before fn sleep b a s k)) = Inr v"
    and "a + k \<le> r"
  shows "retry_from fn sleep r b a s = (Inr v, snd (fn (before fn sleep b a s k)), a + k + 1)"
  using assms
proof (induction k arbitrary: a s)
  case 0
  then obtain s' where f: "fn s = (Inr v, s')"
    by (cases "fn s") auto
  then show ?case
    by (subst retry_from.simps) simp
next
  case (Suc k)
  from Suc.prems(1) have "isl (fst (fn (before fn sleep b a s 0)))" by blast
  then obtain err s' where f: "fn s = (Inl err, s')"
    by (cases "fn s"; cases "fst (fn s)") auto
  let ?s = "sleep (b * 2 ^ a) s'"
  have sh: "\<And>j. before fn sleep b a s (Suc j) = before fn sleep b (Suc a) ?s j"
    using f by (simp only: before_shift snd_conv)
  have 1: "\<forall>j<k. isl (fst (fn (before fn sleep b (Suc a) ?s j)))"
    using Suc.prems(1) sh by (metis Suc_less_eq)
  have 2: "fst (fn (before fn sleep b (Suc a) ?s k)) = Inr v"
    using Suc.prems(2) sh by metis
  have 3: "Suc a + k \<le> r" using Suc.prems(3) by simp
  have "retry_from fn sleep r b (Suc a) ?s = (Inr v, snd (fn (before fn sleep b (Suc a) ?s k)), Suc a + k + 1)"
    by (rule Suc.IH [OF 1 2 3])
  moreover have "retry_from fn sleep r b a s = retry_from fn sleep r b (Suc a) ?s"
    using f Suc.prems(3) by (subst retry_from.simps) simp
  ultimately show ?case using sh by simp
qed

lemma retry_from_exhausted:
  assumes "\<forall>j\<le>k. isl (fst (fn (before fn sleep b a s j)))"
    and "a + k = r"
  shows "retry_from fn sleep r b a s =
           (fst (fn (before fn sleep b a s k)), snd (fn (before fn sleep b a s k)), r + 1)"
  using assms
proof (induction k arbitrary: a s)
  case 0
  then obtain err s' where f: "fn s = (Inl err, s')"
    by (cases "fn s"; cases "fst (fn s)") auto
  with 0 show ?case
    by (subst retry_from.simps) simp
next
  case (Suc k)
  from Suc.prems(1) have "isl (fst (fn (before fn sleep b a s 0)))" by blast
  then obtain err s' where f: "fn s = (Inl err, s')"
    by (cases "fn s"; cases "fst (fn s)") auto
  let ?s = "sleep (b * 2 ^ a) s'"
  have sh: "\<And>j. before fn sleep b a s (Suc j) = before fn sleep b (Suc a) ?s j"
    using f by (simp only: before_shift snd_conv)
  have 1: "\<forall>j\<le>k. isl (fst (fn (before fn sleep b (Suc a) ?s j)))"
    using Suc.prems(1) sh by (metis Suc_le_mono)
  have 3: "Suc a + k = r" using Suc.prems(2) by simp
  have "retry_from fn sleep r b (Suc a) ?s =
          (fst (fn (before fn sleep b (Suc a) ?s k)), snd (fn (before fn sleep b (Suc a) ?s k)), r + 1)"
    by (rule Suc.IH [OF 1 3])
  moreover have "retry_from fn sleep r b a s = retry_from fn sleep r b (Suc a) ?s"
    using f Suc.prems(2) by (subst retry_from.simps) simp
  ultimately show ?case using sh by simp
qed

text \<open>
  C2. For every operation and retry budget \<open>r\<close>: if the operation fails on each
  of its first \<open>r + 1\<close> invocations, \<open>retry\<close> invokes it exactly \<open>r + 1\<close>
  times and returns (rethrows) the very error of the last invocation, in the state
  that invocation left; if invocation \<open>k + 1 \<le> r + 1\<close> is the first to succeed,
  \<open>retry\<close> returns that success after exactly \<open>k + 1\<close> invocations, in the
  state that invocation left (no further invocation, no further sleep).
\<close>

theorem retry_invocations:
  "((\<forall>k\<le>r. isl (fst (invocation fn sleep \<lparr>retries = Some r, baseMs = ob\<rparr> s k))) \<longrightarrow>
      retry fn sleep \<lparr>retries = Some r, baseMs = ob\<rparr> s =
        (fst (invocation fn sleep \<lparr>retries = Some r, baseMs = ob\<rparr> s r),
         snd (invocation fn sleep \<lparr>retries = Some r, baseMs = ob\<rparr> s r), r + 1))
   \<and> (\<forall>k v. k \<le> r
          \<and> (\<forall>j<k. isl (fst (invocation fn sleep \<lparr>retries = Some r, baseMs = ob\<rparr> s j)))
          \<and> fst (invocation fn sleep \<lparr>retries = Some r, baseMs = ob\<rparr> s k) = Inr v \<longrightarrow>
      retry fn sleep \<lparr>retries = Some r, baseMs = ob\<rparr> s =
        (Inr v, snd (invocation fn sleep \<lparr>retries = Some r, baseMs = ob\<rparr> s k), k + 1))"
proof (intro conjI impI allI)
  assume "\<forall>k\<le>r. isl (fst (invocation fn sleep \<lparr>retries = Some r, baseMs = ob\<rparr> s k))"
  then show "retry fn sleep \<lparr>retries = Some r, baseMs = ob\<rparr> s =
        (fst (invocation fn sleep \<lparr>retries = Some r, baseMs = ob\<rparr> s r),
         snd (invocation fn sleep \<lparr>retries = Some r, baseMs = ob\<rparr> s r), r + 1)"
    unfolding retry_def invocation_def by (simp add: retry_from_exhausted)
next
  fix k v
  assume "k \<le> r
          \<and> (\<forall>j<k. isl (fst (invocation fn sleep \<lparr>retries = Some r, baseMs = ob\<rparr> s j)))
          \<and> fst (invocation fn sleep \<lparr>retries = Some r, baseMs = ob\<rparr> s k) = Inr v"
  then show "retry fn sleep \<lparr>retries = Some r, baseMs = ob\<rparr> s =
        (Inr v, snd (invocation fn sleep \<lparr>retries = Some r, baseMs = ob\<rparr> s k), k + 1)"
    unfolding retry_def invocation_def
    using retry_from_success [of k fn sleep _ 0 s v r] by simp
qed

lemma before_counter:
  "before always_fails no_wait b 0 0 k = k" "before (succeeds_on m) no_wait b 0 0 k = k"
  by (induction k) (simp_all add: always_fails_def succeeds_on_def no_wait_def)

theorem retry_invocations_witness:
  "retry always_fails no_wait \<lparr>retries = Some 2, baseMs = None\<rparr> 0 = (Inl 2, 3, 3)
   \<and> retry (succeeds_on 2) no_wait \<lparr>retries = Some 2, baseMs = None\<rparr> 0 = (Inr ''ok'', 2, 2)"
proof -
  have f: "\<forall>k\<le>2. isl (fst (invocation always_fails no_wait \<lparr>retries = Some 2, baseMs = None\<rparr> 0 k))"
    by (simp add: invocation_def before_counter always_fails_def)
  have g: "(1::nat) \<le> 2
     \<and> (\<forall>j<1. isl (fst (invocation (succeeds_on 2) no_wait \<lparr>retries = Some 2, baseMs = None\<rparr> 0 j)))
     \<and> fst (invocation (succeeds_on 2) no_wait \<lparr>retries = Some 2, baseMs = None\<rparr> 0 1) = Inr ''ok''"
    by (simp add: invocation_def before_counter succeeds_on_def no_wait_def)
  have a: "retry always_fails no_wait \<lparr>retries = Some 2, baseMs = None\<rparr> 0 = (Inl 2, 3, 3)"
    using f retry_invocations [of 2 always_fails no_wait None 0]
    by (simp add: invocation_def before_counter always_fails_def)
  have b: "retry (succeeds_on 2) no_wait \<lparr>retries = Some 2, baseMs = None\<rparr> 0 = (Inr ''ok'', 2, 2)"
    using g retry_invocations [of 2 "succeeds_on 2" no_wait None 0,
        THEN conjunct2, THEN spec, THEN spec, of 1 "''ok''"]
    by (simp add: invocation_def before_counter succeeds_on_def no_wait_def)
  from a b show ?thesis by simp
qed

section \<open>The example normalizer on the end-to-end scenario\<close>

text \<open>
  C8 (as amended). For the raw message of the scenario with a
  \<^verbatim>\<open>schemaVersion\<close> string added (any string; the repository's test
  client sends \<^verbatim>\<open>"1.0"\<close>), the example normalizer returns exactly one
  DomainEvent whose \<^verbatim>\<open>event.event_type\<close> is \<^verbatim>\<open>SENSOR_READING\<close>, whose
  \<^verbatim>\<open>meta.sensorType\<close> is \<^verbatim>\<open>temperature\<close> and whose
  \<^verbatim>\<open>event.fingerprint\<close> is the fingerprint of
  \<^verbatim>\<open>{type, sensor, location, value, unit}\<close>. The reading \<open>v\<close> is any
  number (not \<^verbatim>\<open>NaN\<close>), 21.5 among them.
\<close>

theorem normalize_sensor_report:
  assumes "\<not> isNaN N v"
  shows "\<exists>ev. normalize N sha256hex
            (JObj [(''tool'', JStr ''sensor_report''), (''schemaVersion'', JStr sv),
                   (''runId'', JStr ''r1''), (''data'', sensor_data v)]) = Inr (Some [ev])
          \<and> Option.bind (getprop ''event'' ev) (getprop ''event_type'') = Some (JStr ''SENSOR_READING'')
          \<and> Option.bind (getprop ''meta'' ev) (getprop ''sensorType'') = Some (JStr ''temperature'')
          \<and> Option.bind (getprop ''event'' ev) (getprop ''fingerprint'') =
               Some (JStr (fingerprint sha256hex (js_toString (numToString N))
                 [(''type'', JStr ''SENSOR_READING''), (''sensor'', JStr ''temp-1''),
                  (''location'', JStr ''kitchen''), (''value'', JNum v),
                  (''unit'', JStr ''celsius'')]))"
  using assms
  by (simp add: normalize_def RawSensorSchema_safeParse_def sensor_data_def
      plugin_DomainEventSchema_ok_def getprop_def deriveSensorType_def toLowerCase_def)

theorem normalize_sensor_report_witness:
  "\<not> isNaN literal_numbers ''21.5''
   \<and> (\<exists>ev. normalize literal_numbers id
            (JObj [(''tool'', JStr ''sensor_report''), (''schemaVersion'', JStr ''1.0''),
                   (''runId'', JStr ''r1''), (''data'', sensor_data ''21.5'')]) = Inr (Some [ev])
          \<and> Option.bind (getprop ''event'' ev) (getprop ''event_type'') = Some (JStr ''SENSOR_READING'')
          \<and> Option.bind (getprop ''meta'' ev) (getprop ''sensorType'') = Some (JStr ''temperature'')
          \<and> Option.bind (getprop ''event'' ev) (getprop ''fingerprint'') =
               Some (JStr (fingerprint id (js_toString (numToString literal_numbers))
                 [(''type'', JStr ''SENSOR_READING''), (''sensor'', JStr ''temp-1''),
                  (''location'', JStr ''kitchen''), (''value'', JNum ''21.5''),
                  (''unit'', JStr ''celsius'')])))"
proof -
  have n: "\<not> isNaN literal_numbers ''21.5''"
    by (simp add: literal_numbers_def)
  from n normalize_sensor_report [OF n, of id "''1.0''"] show ?thesis
    by (rule conjI)
qed

text \<open>
  C8 as stated fails: the raw message of the claim has no \<^verbatim>\<open>schemaVersion\<close>,
  which \<^verbatim>\<open>RawSensorSchema\<close> requires, so \<^verbatim>\<open>safeParse\<close> fails and the
  normalizer returns \<^verbatim>\<open>null\<close>: no DomainEvent.
\<close>

theorem normalize_sensor_report_without_schemaVersion:
  "normalize literal_numbers id
     (JObj [(''tool'', JStr ''sensor_report''), (''runId'', JStr ''r1''),
            (''data'', sensor_data ''21.5'')]) = Inr None"
  by (simp add: normalize_def RawSensorSchema_safeParse_def)

section \<open>Plugin loading\<close>

lemma set_assign: "fst ` set (assign k v kvs) = insert k (fst ` set kvs)"
proof (induction kvs)
  case Nil
  show ?case by simp
next
  case (Cons a kvs)
  obtain k' v' where a: "a = (k', v')" by (cases a)
  show ?case
  proof (cases "k = k'")
    case True
    with a show ?thesis by simp
  next
    case False
    with a Cons show ?thesis by (simp add: insert_commute)
  qed
qed

lemma load_entry_keys:
  "fst ` set (fst (load_entry env import kind keyName (k, p) (reg, logs))) =
     (if passes env import p \<and> k \<noteq> ''__proto__'' then insert k (fst ` set reg) else fst ` set reg)"
  by (simp add: load_entry_def passes_def set_assign split: sum.splits)

lemma load_entry_log:
  "length (snd (load_entry env import kind keyName (k, p) (reg, logs))) = Suc (length logs)"
  by (simp add: load_entry_def split: sum.splits)

lemma load_keys:
  "fst ` set (fst (foldl (\<lambda>st entry. load_entry env import kind keyName entry st) st pluginMap)) =
     fst ` set (fst st)
       \<union> fst ` {e \<in> set pluginMap. passes env import (snd e) \<and> fst e \<noteq> ''__proto__''}"
proof (induction pluginMap rule: rev_induct)
  case Nil
  then show ?case by simp
next
  case (snoc e es)
  obtain k p where e: "e = (k, p)" by (cases e)
  obtain reg logs where r: "foldl (\<lambda>st entry. load_entry env import kind keyName entry st) st es = (reg, logs)"
    by (cases "foldl (\<lambda>st entry. load_entry env import kind keyName entry st) st es")
  from snoc r have ih: "fst ` set reg = fst ` set (fst st)
      \<union> fst ` {e \<in> set es. passes env import (snd e) \<and> fst e \<noteq> ''__proto__''}"
    by simp
  have "fst ` set (fst (load_entry env import kind keyName (k, p) (reg, logs))) =
     fst ` set (fst st)
       \<union> fst ` {e \<in> set (es @ [(k, p)]). passes env import (snd e) \<and> fst e \<noteq> ''__proto__''}"
    unfolding load_entry_keys ih by (cases "passes env import p \<and> k \<noteq> ''__proto__''") force+
  then show ?case
    using e r by simp
qed

lemma load_logs:
  "length (snd (foldl (\<lambda>st entry. load_entry env import kind keyName entry st) st pluginMap)) =
     length (snd st) + length pluginMap"
proof (induction pluginMap rule: rev_induct)
  case Nil
  then show ?case by simp
next
  case (snoc e es)
  obtain k p where e: "e = (k, p)" by (cases e)
  obtain reg logs where r: "foldl (\<lambda>st entry. load_entry env import kind keyName entry st) st es = (reg, logs)"
    by (cases "foldl (\<lambda>st entry. load_entry env import kind keyName entry st) st es")
  with snoc e show ?case by (simp add: load_entry_log)
qed

text \<open>
  On a section that is present the loader does not fail whatever the entries are,
  and it registers exactly the entries that pass validation and import (the key
  \<^verbatim>\<open>__proto__\<close> apart, which is never registered); a section that is absent
  ends the start-up.
\<close>

lemma load_normalizers_keys:
  "\<exists>registry logs. load_normalizers env import (Some pluginMap) = Inr (registry, logs)
     \<and> fst ` set registry =
         fst ` {e \<in> set pluginMap. passes env import (snd e) \<and> fst e \<noteq> ''__proto__''}
     \<and> length logs = length pluginMap"
proof -
  let ?r = "foldl (\<lambda>st entry. load_entry env import ''normalizer'' ''tool'' entry st) ([], []) pluginMap"
  have "load_normalizers env import (Some pluginMap) = Inr (fst ?r, snd ?r)"
    by (simp add: load_normalizers_def Object_entries_def)
  moreover have "fst ` set (fst ?r) =
         fst ` {e \<in> set pluginMap. passes env import (snd e) \<and> fst e \<noteq> ''__proto__''}"
    unfolding load_keys by simp
  moreover have "length (snd ?r) = length pluginMap"
    using load_logs [of env import "''normalizer''" "''tool''" "([], [])" pluginMap] by simp
  ultimately show ?thesis by blast
qed

lemma load_normalizers_absent:
  "load_normalizers env import None =
     Inl (JsError (Some ''TypeError'') ''Cannot convert undefined or null to object'')"
  by (simp add: load_normalizers_def Object_entries_def)

text \<open>
  Three configured plugins, the second of which cannot be imported: two registered
  handlers and one warning.
\<close>

lemma load_three_one_missing:
  "load_normalizers app_env two_plugins_fs
     (Some [(''a'', ''plugins/a/normalizer''), (''x'', ''plugins/x/normalizer''),
            (''b'', ''plugins/b/normalizer'')]) =
     Inr ([(''a'', ''normalizer a''), (''b'', ''normalizer b'')],
          [Log INFO ''loaded normalizer'' [(''tool'', ''a'')],
           Log WARN ''normalizer loading failed; skipped''
             [(''tool'', ''x''), (''error'', ''Cannot find module'')],
           Log INFO ''loaded normalizer'' [(''tool'', ''b'')]])"
  by code_simp

text \<open>
  C7. The claim holds except for its last part, and there the code misses what its
  own documentation promises (\<^verbatim>\<open>validatePluginPath\<close> "throws when plugin path
  resolves outside allowed directory"): the containment test is a string prefix
  test, so a path in a sibling directory whose name merely starts with
  \<^verbatim>\<open>plugins\<close> passes it. With \<^verbatim>\<open>plugins-extra/mod\<close> configured, the module
  \<^verbatim>\<open>/app/dist/plugins-extra/mod.js\<close>, outside \<^verbatim>\<open>/app/dist/plugins/\<close>, is
  loaded and registered.
\<close>

theorem load_sibling_directory:
  "validatePluginPath app_env ''plugins-extra/mod'' ''plugins'' = Inr ''plugins-extra/mod''
   \<and> module_file app_env ''plugins-extra/mod'' = ''/app/dist/plugins-extra/mod.js''
   \<and> resolve (cwd app_env) [dirname app_env, ''plugins''] = ''/app/dist/plugins''
   \<and> \<not> inside_dir ''/app/dist/plugins'' ''/app/dist/plugins-extra/mod.js''
   \<and> load_normalizers app_env sibling_fs (Some [(''evil'', ''plugins-extra/mod'')]) =
         Inr ([(''evil'', ''handler of plugins-extra/mod'')],
              [Log INFO ''loaded normalizer'' [(''tool'', ''evil'')]])"
  by code_simp

section \<open>Dispatch of a RAW message: a violating candidate\<close>

lemma push_events_prefix:
  assumes "list_all DomainEventSchema_ok pre"
    and "map (JSON_stringify env) pre = map Inr texts"
    and "(\<not> DomainEventSchema_ok bad
          \<and> err = JsError (Some ''Error'') ''Domain event schema violation'')
         \<or> (DomainEventSchema_ok bad \<and> JSON_stringify env bad = Inl err)"
  shows "push_events env (pre @ bad # rest) st =
           (Inl err,
            st\<lparr>batch := batch st @ map (\<lambda>(ev, text). domain_entry env ev text) (zip pre texts)\<rparr>)"
  using assms
proof (induction pre arbitrary: st texts)
  case Nil
  then show ?case by auto
next
  case (Cons ev pre)
  from Cons.prems(2) obtain tx texts' where t: "texts = tx # texts'"
    and e: "JSON_stringify env ev = Inr tx"
    and m: "map (JSON_stringify env) pre = map Inr texts'"
    by (cases texts) auto
  from Cons.prems(1) have ok: "DomainEventSchema_ok ev" "list_all DomainEventSchema_ok pre"
    by simp_all
  have "push_events env (pre @ bad # rest) (batch_push (domain_entry env ev tx) st) =
          (Inl err,
           (batch_push (domain_entry env ev tx) st)
             \<lparr>batch := batch (batch_push (domain_entry env ev tx) st)
                        @ map (\<lambda>(ev, text). domain_entry env ev text) (zip pre texts')\<rparr>)"
    by (rule Cons.IH [OF ok(2) m Cons.prems(3)])
  with ok(1) e t show ?case
    by (simp add: batch_push_def)
qed

lemma push_events_all:
  assumes "list_all DomainEventSchema_ok evs"
    and "map (JSON_stringify env) evs = map Inr texts"
  shows "push_events env evs st =
           (Inr (), st\<lparr>batch := batch st @ map (\<lambda>(ev, text). domain_entry env ev text) (zip evs texts)\<rparr>)"
  using assms
proof (induction evs arbitrary: st texts)
  case Nil
  then show ?case by simp
next
  case (Cons ev evs)
  from Cons.prems(2) obtain tx texts' where t: "texts = tx # texts'"
    and e: "JSON_stringify env ev = Inr tx"
    and m: "map (JSON_stringify env) evs = map Inr texts'"
    by (cases texts) auto
  from Cons.prems(1) have ok: "DomainEventSchema_ok ev" "list_all DomainEventSchema_ok evs"
    by simp_all
  from Cons.IH [OF ok(2) m] ok(1) e t show ?case
    by (simp add: batch_push_def)
qed

text \<open>
  A list with a violating candidate has a first candidate at which the loop stops,
  which is that one or an earlier one that cannot be serialised.
\<close>

lemma first_failure:
  assumes "\<exists>ev\<in>set cs. \<not> DomainEventSchema_ok ev"
  shows "\<exists>pre bad rest texts err. cs = pre @ bad # rest
           \<and> list_all DomainEventSchema_ok pre
           \<and> map (JSON_stringify env) pre = map Inr texts
           \<and> ((\<not> DomainEventSchema_ok bad
                 \<and> err = JsError (Some ''Error'') ''Domain event schema violation'')
                \<or> (DomainEventSchema_ok bad \<and> JSON_stringify env bad = Inl err))"
proof -
  let ?fails = "\<lambda>ev. \<not> DomainEventSchema_ok ev \<or> isl (JSON_stringify env ev)"
  from assms have "\<exists>ev\<in>set cs. ?fails ev" by blast
  then have "\<exists>pre bad rest. cs = pre @ bad # rest \<and> ?fails bad \<and> (\<forall>ev\<in>set pre. \<not> ?fails ev)"
    by (rule split_list_first_prop)
  then obtain pre bad rest where cs: "cs = pre @ bad # rest" and b: "?fails bad"
    and p: "\<forall>ev\<in>set pre. \<not> ?fails ev"
    by blast
  have 1: "list_all DomainEventSchema_ok pre"
    using p by (simp add: list_all_iff)
  have 2: "map (JSON_stringify env) pre = map Inr (map (\<lambda>ev. projr (JSON_stringify env ev)) pre)"
    using p by (induction pre) simp_all
  show ?thesis
  proof (cases "DomainEventSchema_ok bad")
    case False
    with cs 1 2 show ?thesis by blast
  next
    case True
    with b obtain err where "JSON_stringify env bad = Inl err"
      by (cases "JSON_stringify env bad") auto
    with True cs 1 2 show ?thesis by blast
  qed
qed

lemma ex_parse: "JSON_parse example_env (example_stringify raw_pair) = Inr raw_pair"
  by (simp add: example_env_def example_parse_def)

lemma ex_raw_ok: "RawMessageSchema_ok raw_pair"
  by (simp add: RawMessageSchema_ok_def raw_pair_def getprop_def)

lemma ex_member:
  "member_of (normalizers example_env) (string_prop ''tool'' (Some raw_pair)) = Own pair_normalizer"
  by (simp add: member_of_def example_env_def string_prop_def raw_pair_def)

lemma ex_good: "list_all DomainEventSchema_ok [good_event]"
  by (simp add: DomainEventSchema_ok_def good_event_def getprop_def)

lemma ex_good_text:
  "map (JSON_stringify example_env) [good_event] = map Inr [example_stringify good_event]"
  by (simp add: example_env_def example_JSON_stringify_def good_event_def unwritable_event_def)

lemma ex_bad: "\<not> DomainEventSchema_ok bad_event"
  by (simp add: DomainEventSchema_ok_def bad_event_def getprop_def)

lemma ex_parse_bigint: "JSON_parse example_env (example_stringify raw_bigint) = Inr raw_bigint"
  by code_simp

lemma ex_raw_ok_bigint: "RawMessageSchema_ok raw_bigint"
  by (simp add: RawMessageSchema_ok_def raw_bigint_def getprop_def)

lemma ex_member_bigint:
  "member_of (normalizers example_env) (string_prop ''tool'' (Some raw_bigint)) = Own bigint_normalizer"
  by (simp add: member_of_def example_env_def string_prop_def raw_bigint_def)

lemma ex_unwritable:
  "DomainEventSchema_ok unwritable_event
   \<and> JSON_stringify example_env unwritable_event =
       Inl (JsError (Some ''TypeError'') ''Do not know how to serialize a BigInt'')"
  by (simp add: DomainEventSchema_ok_def unwritable_event_def getprop_def example_env_def
      example_JSON_stringify_def)

text \<open>
  C5 (as amended). For every RAW-topic message whose normalizer returns a list of
  candidates in which one violates the DomainEvent envelope schema, the dispatch
  attempt fails for the whole message: the loop stops at the first candidate
  \<open>bad\<close> that violates the schema (with "Domain event schema violation") or that
  \<^verbatim>\<open>JSON.stringify\<close> cannot serialise (with the error it throws). The
  candidates \<open>pre\<close> before that one have been pushed into the batch buffer, in
  order and each with its text, and stay there; that candidate and every candidate
  after it are not pushed by that attempt. (\<open>first_failure\<close>: a list with a
  violating candidate always has such a first candidate.)
\<close>

theorem handle_fail_fast:
  assumes "JSON_parse env rawBytes = Inr obj"
    and "RawMessageSchema_ok obj"
    and "member_of (normalizers env) (string_prop ''tool'' (Some obj)) = Own nz"
    and "nz obj = Inr (Some (pre @ bad # rest))"
    and "list_all DomainEventSchema_ok pre"
    and "map (JSON_stringify env) pre = map Inr texts"
    and "(\<not> DomainEventSchema_ok bad
          \<and> err = JsError (Some ''Error'') ''Domain event schema violation'')
         \<or> (DomainEventSchema_ok bad \<and> JSON_stringify env bad = Inl err)"
  shows "handle env (rawTopic env) rawBytes st =
           (Inl err,
            st\<lparr>messagesConsumed := (messagesConsumed st)(rawTopic env := messagesConsumed st (rawTopic env) + 1),
               batch := batch st @ map (\<lambda>(ev, text). domain_entry env ev text) (zip pre texts)\<rparr>)"
  using assms(1-4)
  by (simp add: handle_def handle_raw_def push_events_prefix [OF assms(5,6,7)])

theorem handle_fail_fast_witness:
  "handle example_env (rawTopic example_env) (example_stringify raw_pair) idle =
           (Inl (JsError (Some ''Error'') ''Domain event schema violation''),
            idle\<lparr>messagesConsumed :=
                   (messagesConsumed idle)(rawTopic example_env := messagesConsumed idle (rawTopic example_env) + 1),
               batch := batch idle @ map (\<lambda>(ev, text). domain_entry example_env ev text)
                          (zip [good_event] [example_stringify good_event])\<rparr>)
   \<and> handle example_env (rawTopic example_env) (example_stringify raw_bigint) idle =
           (Inl (JsError (Some ''TypeError'') ''Do not know how to serialize a BigInt''),
            idle\<lparr>messagesConsumed :=
                   (messagesConsumed idle)(rawTopic example_env := messagesConsumed idle (rawTopic example_env) + 1),
               batch := batch idle @ map (\<lambda>(ev, text). domain_entry example_env ev text) (zip [] [])\<rparr>)"
proof -
  have n: "pair_normalizer raw_pair = Inr (Some ([good_event] @ bad_event # []))"
    by (simp add: pair_normalizer_def)
  have b: "(\<not> DomainEventSchema_ok bad_event
          \<and> JsError (Some ''Error'') ''Domain event schema violation''
              = JsError (Some ''Error'') ''Domain event schema violation'')
         \<or> (DomainEventSchema_ok bad_event
             \<and> JSON_stringify example_env bad_event
                 = Inl (JsError (Some ''Error'') ''Domain event schema violation''))"
    using ex_bad by simp
  have n': "bigint_normalizer raw_bigint = Inr (Some ([] @ unwritable_event # [bad_event]))"
    by (simp add: bigint_normalizer_def)
  have e: "list_all DomainEventSchema_ok ([] :: string json list)"
    by simp
  have t: "map (JSON_stringify example_env) [] = map Inr []"
    by simp
  have b': "(\<not> DomainEventSchema_ok unwritable_event
          \<and> JsError (Some ''TypeError'') ''Do not know how to serialize a BigInt''
              = JsError (Some ''Error'') ''Domain event schema violation'')
         \<or> (DomainEventSchema_ok unwritable_event
             \<and> JSON_stringify example_env unwritable_event
                 = Inl (JsError (Some ''TypeError'') ''Do not know how to serialize a BigInt''))"
    using ex_unwritable by simp
  show ?thesis
    by (intro conjI)
      (rule handle_fail_fast [OF ex_parse ex_raw_ok ex_member n ex_good ex_good_text b],
       rule handle_fail_fast [OF ex_parse_bigint ex_raw_ok_bigint ex_member_bigint n' e t b'])
qed

text \<open>
  C5 as stated fails: validation and push alternate in one loop and nothing is
  taken back on failure. A normalizer that returns a valid candidate followed by a
  violating one leaves the valid candidate in the buffer of the failed attempt.
\<close>

theorem handle_pushes_valid_prefix:
  "fst (handle example_env ''tasks.raw-output'' (example_stringify raw_pair) idle) =
     Inl (JsError (Some ''Error'') ''Domain event schema violation'')
   \<and> batch (snd (handle example_env ''tasks.raw-output'' (example_stringify raw_pair) idle)) =
       [(''events.domain'', [(Some ''f1'', example_stringify good_event)])]
   \<and> DomainEventSchema_ok good_event \<and> \<not> DomainEventSchema_ok bad_event
   \<and> pair_normalizer raw_pair = Inr (Some [good_event, bad_event])"
  by code_simp

section \<open>Dispatch: messages without a value\<close>

text \<open>
  C10 (as amended). For every consumed Kafka message whose value is
  \<^verbatim>\<open>null\<close> (a tombstone), the handler returns immediately and the state is
  unchanged: no counter is incremented, nothing is parsed, validated, retried or
  given to a plugin, and nothing is published to the dead-letter topic.
\<close>

theorem eachMessage_null:
  "eachMessage env tpc None st = st"
  by (simp add: eachMessage_def)

theorem eachMessage_null_witness:
  "eachMessage example_env ''tasks.raw-output'' None idle = idle"
  by (rule eachMessage_null)

text \<open>
  C10 as stated fails for an empty value: a zero-length \<^verbatim>\<open>Buffer\<close> is truthy, so
  \<^verbatim>\<open>!message.value\<close> is false and the message is handled like any other. Its
  text is not JSON: three attempts, each counted as a consumed message, one
  processing error and one dead-letter publish.
\<close>

theorem eachMessage_empty_value:
  "messagesConsumed (eachMessage example_env ''tasks.raw-output'' (Some []) idle) ''tasks.raw-output'' = 3
   \<and> processingErrors (eachMessage example_env ''tasks.raw-output'' (Some []) idle)
        (''tasks.raw-output'', ''SyntaxError'') = 1
   \<and> delivered (world (eachMessage example_env ''tasks.raw-output'' (Some []) idle)) =
        [(''events.dlq'', [(None, [])])]
   \<and> messagesConsumed idle ''tasks.raw-output'' = 0"
  by code_simp

section \<open>Dispatch: exhausted retries and the dead-letter topic\<close>

lemma eachMessage_exhausted:
  assumes "retry (handle env tpc (toString_utf8 buf)) (backoff env) \<lparr>retries = Some 2, baseMs = None\<rparr> st
             = (Inl err, st1, n)"
    and "producer_send env (dlqTopic env) [(None, toString_utf8 buf)]
           (st1\<lparr>processingErrors :=
                   (processingErrors st1)
                     ((tpc, case err_name err of None \<Rightarrow> ''unknown'' | Some nm \<Rightarrow> nm) :=
                        processingErrors st1 (tpc, case err_name err of None \<Rightarrow> ''unknown'' | Some nm \<Rightarrow> nm) + 1),
                 logged := logged st1 @ [Log ERROR ''failed permanently, sending to DLQ''
                                           [(''err'', err_message err)]]\<rparr>) = (res, st3)"
  shows "eachMessage env tpc (Some buf) st =
           (case res of
              Inr u \<Rightarrow> st3
            | Inl dlqErr \<Rightarrow>
                st3\<lparr>logged := logged st3 @ [Log ERROR ''DLQ publish failed''
                                            [(''dlqErr'', err_message dlqErr)]]\<rparr>)"
  using assms by (simp add: eachMessage_def Let_def split: sum.splits)

text \<open>
  With a broker that is down the DLQ publish fails too: the failure is logged and
  that is all.
\<close>

lemma dlq_failure_only_logged:
  "logged (eachMessage (example_env\<lparr>producer_send := broker_down\<rparr>) ''tasks.raw-output'' (Some ''{'') idle) =
     [Log ERROR ''failed permanently, sending to DLQ'' [(''err'', ''Unexpected token'')],
      Log ERROR ''DLQ publish failed'' [(''dlqErr'', ''broker down'')]]
   \<and> processingErrors (eachMessage (example_env\<lparr>producer_send := broker_down\<rparr>)
        ''tasks.raw-output'' (Some ''{'') idle) (''tasks.raw-output'', ''SyntaxError'') = 1
   \<and> delivered (world (eachMessage (example_env\<lparr>producer_send := broker_down\<rparr>)
        ''tasks.raw-output'' (Some ''{'') idle)) = []"
  by code_simp

lemma utf8_decode_ascii:
  assumes "list_all (\<lambda>c. (of_char c :: nat) \<le> 0x7F) buf"
  shows "utf8_decode 0 lo hi pend buf = buf"
  using assms by (induction buf arbitrary: lo hi pend) simp_all

lemma toString_utf8_ascii:
  "list_all (\<lambda>c. (of_char c :: nat) \<le> 0x7F) buf \<Longrightarrow> toString_utf8 buf = buf"
  by (simp add: toString_utf8_def utf8_decode_ascii)

lemma well_formed_decode:
  "well_formed_utf8 buf \<Longrightarrow> utf8_decode 0 lo hi pend buf = buf"
proof (induction buf arbitrary: lo hi pend rule: well_formed_utf8.induct)
  case 1
  show ?case by simp
next
  case (2 c cs)
  let ?b = "of_char c :: nat"
  consider "?b \<le> 0x7F" | "0xC2 \<le> ?b \<and> ?b \<le> 0xDF" | "0xE0 \<le> ?b \<and> ?b \<le> 0xEF"
    | "0xF0 \<le> ?b \<and> ?b \<le> 0xF4"
    using "2.prems" by (auto simp: Let_def split: if_splits)
  then show ?case
  proof cases
    case 1
    with 2 show ?thesis by simp
  next
    case 2
    with "2.prems" obtain c1 r where cs: "cs = c1 # r" and c1: "byte_in 0x80 0xBF c1" and r: "well_formed_utf8 r"
      by (auto simp: Let_def split: if_splits list.splits)
    have "utf8_decode 0 0x80 0xBF [] r = r"
      using "2.IH"(2) 2 cs r by simp
    with 2 cs c1 show ?thesis by (simp add: byte_in_def Let_def)
  next
    case 3
    with "2.prems" obtain c1 c2 r where cs: "cs = c1 # c2 # r"
      and c1: "byte_in (if ?b = 0xE0 then 0xA0 else 0x80) (if ?b = 0xED then 0x9F else 0xBF) c1"
      and c2: "byte_in 0x80 0xBF c2" and r: "well_formed_utf8 r"
      by (auto simp: Let_def split: if_splits list.splits)
    have "utf8_decode 0 0x80 0xBF [] r = r"
      using "2.IH"(3) 3 cs r by simp
    with 3 cs c1 c2 show ?thesis
      by (simp add: byte_in_def Let_def numeral_2_eq_2)
  next
    case 4
    with "2.prems" obtain c1 c2 c3 r where cs: "cs = c1 # c2 # c3 # r"
      and c1: "byte_in (if ?b = 0xF0 then 0x90 else 0x80) (if ?b = 0xF4 then 0x8F else 0xBF) c1"
      and c2: "byte_in 0x80 0xBF c2" and c3: "byte_in 0x80 0xBF c3" and r: "well_formed_utf8 r"
      by (auto simp: Let_def split: if_splits list.splits)
    have "utf8_decode 0 0x80 0xBF [] r = r"
      using "2.IH"(4) 4 cs r by simp
    with 4 cs c1 c2 c3 show ?thesis
      by (simp add: byte_in_def Let_def numeral_3_eq_3)
  qed
qed

lemma toString_utf8_well_formed:
  "well_formed_utf8 buf \<Longrightarrow> toString_utf8 buf = buf"
  by (simp add: toString_utf8_def well_formed_decode)

text \<open>
  C4. The claim holds but for the bytes: the counter labelled with the topic and
  the name of the error is incremented and a failing DLQ publish is only logged
  (\<open>eachMessage_exhausted\<close>), but what is published is \<^verbatim>\<open>rawBytes\<close>, the
  UTF-8 decoding of the message's value, not the value. They agree on every
  well-formed UTF-8 text (\<open>toString_utf8_well_formed\<close>); a value that is
  not well-formed, which is a likely reason for the failure, arrives in the
  dead-letter topic with replacement characters. Here the one byte \<^verbatim>\<open>FF\<close> is
  published as \<^verbatim>\<open>EF BF BD\<close>.
\<close>

theorem dlq_replacement_character:
  "toString_utf8 [CHR 0xFF] = [CHR 0xEF, CHR 0xBF, CHR 0xBD]
   \<and> processingErrors (eachMessage example_env ''tasks.raw-output'' (Some [CHR 0xFF]) idle)
        (''tasks.raw-output'', ''SyntaxError'') = 1
   \<and> delivered (world (eachMessage example_env ''tasks.raw-output'' (Some [CHR 0xFF]) idle)) =
        [(''events.dlq'', [(None, [CHR 0xEF, CHR 0xBF, CHR 0xBD])])]"
  by code_simp

section \<open>Dispatch of a DOMAIN message: the in-flight set\<close>

lemma handle_domain_fulfilled:
  assumes "DomainEventSchema_ok obj"
    and "member_of (upserters env) (string_prop ''event_type'' (getprop ''event'' obj)) = Own up"
    and "up obj = Inr settle"
    and "settle (st\<lparr>promises := promises st + 1,
                    inFlightUpserts := set_add (promises st) (inFlightUpserts st)\<rparr>) = (Inr (), st2)"
  shows "fst (handle_domain env obj st) = Inr ()
         \<and> inFlightUpserts (snd (handle_domain env obj st)) = set_delete (promises st) (inFlightUpserts st2)
         \<and> promises st \<notin> set (inFlightUpserts (snd (handle_domain env obj st)))"
  using assms by (simp add: handle_domain_def observe_def set_delete_def)

lemma handle_domain_rejected:
  assumes "DomainEventSchema_ok obj"
    and "member_of (upserters env) (string_prop ''event_type'' (getprop ''event'' obj)) = Own up"
    and "up obj = Inr settle"
    and "settle (st\<lparr>promises := promises st + 1,
                    inFlightUpserts := set_add (promises st) (inFlightUpserts st)\<rparr>) = (Inl err, st2)"
  shows "handle_domain env obj st = (Inl err, st2)"
  using assms by (simp add: handle_domain_def)

text \<open>
  An upserter that throws when it is called has made no promise: the set and the
  rest of the state are as before.
\<close>

lemma handle_domain_thrown:
  assumes "DomainEventSchema_ok obj"
    and "member_of (upserters env) (string_prop ''event_type'' (getprop ''event'' obj)) = Own up"
    and "up obj = Inl err"
  shows "handle_domain env obj st = (Inl err, st)"
  using assms by (simp add: handle_domain_def)

text \<open>
  C6. The promise is added when the upserter is invoked and removed when it
  fulfils (\<open>handle_domain_fulfilled\<close>), but not when it rejects:
  \<^verbatim>\<open>await p\<close> throws and \<^verbatim>\<open>inFlightUpserts.delete(p)\<close> is never reached.
  With a storage that refuses, the promise of the attempt is still in the set
  after the attempt, and the three attempts of \<open>retry\<close> leave three settled
  promises in the set.
\<close>

theorem rejected_upsert_stays_in_flight:
  "fst (handle example_env ''events.domain'' (example_stringify good_event) idle) =
     Inl (JsError (Some ''Neo4jError'') ''connection refused'')
   \<and> inFlightUpserts (snd (handle example_env ''events.domain'' (example_stringify good_event) idle)) = [0]
   \<and> inFlightUpserts (eachMessage example_env ''events.domain'' (Some (example_stringify good_event)) idle) =
       [0, 1, 2]"
  by code_simp

section \<open>Batch flush\<close>

lemma retry_first_success:
  assumes "fn s = (Inr v, s')"
  shows "retry fn sl opts s = (Inr v, s', 1)"
  using assms by (simp add: retry_def retry_from.simps)

lemma batch_push_all: "push_all es st = st\<lparr>batch := batch st @ es\<rparr>"
  unfolding push_all_def by (induction es arbitrary: st) (simp_all add: batch_push_def)

lemma flushBatch_empty: "batch st = [] \<Longrightarrow> flushBatch env st = (Inr (), st)"
  by (simp add: flushBatch_def)

text \<open>
  The whole buffer is captured and cleared before the send begins.
\<close>

lemma flushBatch_capture:
  "batch st \<noteq> [] \<Longrightarrow> flushBatch env st = flush_send env (batch st) (st\<lparr>batch := []\<rparr>)"
  by (simp add: flushBatch_def)

text \<open>
  When the send succeeds only at its \<open>(k+1)\<close>-th attempt, every attempt has
  been an invocation of \<^verbatim>\<open>sendBatch\<close> on the whole captured batch, and none
  follows the success.
\<close>

lemma flush_send_first_success:
  assumes "k \<le> 3"
    and "\<forall>j<k. isl (fst (invocation (producer_sendBatch env es) (backoff env)
                         \<lparr>retries = None, baseMs = None\<rparr> st j))"
    and "fst (invocation (producer_sendBatch env es) (backoff env)
                \<lparr>retries = None, baseMs = None\<rparr> st k) = Inr ()"
  shows "flush_send env es st =
           (Inr (), (snd (invocation (producer_sendBatch env es) (backoff env)
                            \<lparr>retries = None, baseMs = None\<rparr> st k))
                      \<lparr>messagesProduced :=
                         messagesProduced (snd (invocation (producer_sendBatch env es) (backoff env)
                            \<lparr>retries = None, baseMs = None\<rparr> st k))
                         + producedCount es\<rparr>)"
proof -
  have "retry (producer_sendBatch env es) (backoff env) \<lparr>retries = None, baseMs = None\<rparr> st =
          (Inr (), snd (invocation (producer_sendBatch env es) (backoff env)
                            \<lparr>retries = None, baseMs = None\<rparr> st k), 0 + k + 1)"
    unfolding retry_def invocation_def
    using assms retry_from_success [of k "producer_sendBatch env es" "backoff env" 200 0 st "()" 3]
    by (simp add: invocation_def)
  then show ?thesis
    by (simp add: flush_send_def)
qed

text \<open>
  When all four attempts fail, the flush fails with the error of the fourth, in
  the state that the fourth attempt leaves: the captured entries are in no
  buffer any more.
\<close>

lemma flush_send_exhausted:
  assumes "\<forall>j\<le>3. isl (fst (invocation (producer_sendBatch env es) (backoff env)
                         \<lparr>retries = None, baseMs = None\<rparr> st j))"
  shows "flush_send env es st =
           invocation (producer_sendBatch env es) (backoff env)
             \<lparr>retries = None, baseMs = None\<rparr> st 3"
proof -
  let ?i = "invocation (producer_sendBatch env es) (backoff env)
              \<lparr>retries = None, baseMs = None\<rparr> st 3"
  have r: "retry (producer_sendBatch env es) (backoff env) \<lparr>retries = None, baseMs = None\<rparr> st =
          (fst ?i, snd ?i, 3 + 1)"
    unfolding retry_def invocation_def
    using assms retry_from_exhausted [of 3 "producer_sendBatch env es" "backoff env" 200 0 st 3]
    by (simp add: invocation_def)
  from assms have "isl (fst ?i)" by simp
  then obtain err where e: "fst ?i = Inl err"
    by (cases "fst ?i") auto
  have "flush_send env es st = (Inl err, snd ?i)"
    by (simp add: flush_send_def r e)
  also have "\<dots> = ?i"
    using e by (cases ?i) simp
  finally show ?thesis .
qed

text \<open>
  A producer that accepts the batch: the broker gets the buffer as it was when
  the flush was called, and whatever the event loop does before the promise
  settles starts from an empty buffer.
\<close>

lemma flushBatch_accepting:
  assumes "producer_sendBatch env = accepting_sendBatch during" and "batch st \<noteq> []"
  shows "flushBatch env st =
           (Inr (), (during (st\<lparr>batch := [],
                                world := (world st)\<lparr>batches := batches (world st) @ [batch st]\<rparr>\<rparr>))
                      \<lparr>messagesProduced :=
                         messagesProduced
                           (during (st\<lparr>batch := [],
                                       world := (world st)\<lparr>batches := batches (world st) @ [batch st]\<rparr>\<rparr>))
                         + producedCount (batch st)\<rparr>)"
proof -
  have "retry (producer_sendBatch env (batch st)) (backoff env) \<lparr>retries = None, baseMs = None\<rparr>
          (st\<lparr>batch := []\<rparr>) =
        (Inr (), during (st\<lparr>batch := [],
                            world := (world st)\<lparr>batches := batches (world st) @ [batch st]\<rparr>\<rparr>), 1)"
    by (rule retry_first_success) (simp add: assms(1) accepting_sendBatch_def)
  with assms(2) show ?thesis
    by (simp add: flushBatch_def flush_send_def)
qed

lemma flushBatch_pushed_during:
  assumes "producer_sendBatch env = accepting_sendBatch (push_all mid)" and "batch st \<noteq> []"
  shows "flushBatch env st =
           (Inr (), st\<lparr>batch := mid,
                       messagesProduced := messagesProduced st + producedCount (batch st),
                       world := (world st)\<lparr>batches := batches (world st) @ [batch st]\<rparr>\<rparr>)"
  unfolding flushBatch_accepting [OF assms] by (simp add: batch_push_all)

lemma flushBatch_tick_during:
  assumes "producer_sendBatch env =
             accepting_sendBatch (\<lambda>s. snd (flushBatch env2 (push_all mid s)))"
    and "producer_sendBatch env2 = accepting_sendBatch (push_all mid2)"
    and "mid \<noteq> []" and "batch st \<noteq> []"
  shows "flushBatch env st =
           (Inr (), st\<lparr>batch := mid2,
                       messagesProduced :=
                         messagesProduced st + producedCount mid + producedCount (batch st),
                       world := (world st)\<lparr>batches := batches (world st) @ [batch st, mid]\<rparr>\<rparr>)"
  unfolding flushBatch_accepting [OF assms(1,4)]
  using assms(3) by (simp add: batch_push_all flushBatch_pushed_during [OF assms(2)])

lemma all_le_3: "(\<forall>j\<le>3. P j) = (P 0 \<and> P 1 \<and> P 2 \<and> P (3::nat))"
proof
  assume a: "\<forall>j\<le>3. P j"
  then show "P 0 \<and> P 1 \<and> P 2 \<and> P 3" by simp
next
  assume a: "P 0 \<and> P 1 \<and> P 2 \<and> P 3"
  show "\<forall>j\<le>3. P j"
  proof (intro allI impI)
    fix j :: nat assume "j \<le> 3"
    then have "j = 0 \<or> j = 1 \<or> j = 2 \<or> j = 3" by arith
    with a show "P j" by blast
  qed
qed

text \<open>
  C3. Let \<open>flushBatch\<close> be called with \<open>N \<ge> 1\<close> entries in the buffer, whatever
  the producer, the rest of the state and the work of the event loop while the
  send is pending.

  \<^item> Every attempt of the send is a call of \<^verbatim>\<open>sendBatch\<close> on all \<open>N\<close> entries
    in push order, the first in a state whose buffer is already empty; when the
    \<open>(k+1)\<close>-th attempt is the first to succeed (\<open>k \<le> 3\<close>), no call follows it,
    the flush succeeds and counts the \<open>N\<close> entries' messages once.
  \<^item> When all four attempts fail the flush fails after the fourth.
  \<^item> With a producer that accepts the batch, the broker receives the \<open>N\<close>
    entries once, and what the event loop does during the send (\<open>during\<close>) starts
    from the empty buffer.
  \<^item> So when entries \<open>mid\<close> are pushed during the send and the flush timer then
    ticks, that flush sends exactly \<open>mid\<close>: the broker has received the two
    batches \<open>batch st\<close> and \<open>mid\<close>, and the buffer holds what was pushed during
    the second send.
  \<^item> When \<open>mid\<close> is pushed during the send and the next flush comes after it,
    that flush sends exactly \<open>mid\<close>. No entry is sent by two flushes.
  \<^item> When the buffer is empty the flush sends nothing and changes nothing.
\<close>

theorem flushBatch_atomic:
  assumes "batch st \<noteq> []"
  shows "(\<forall>k\<le>3. (\<forall>j<k. isl (fst (send_attempt env st j))) \<and> fst (send_attempt env st k) = Inr ()
            \<longrightarrow> flushBatch env st =
                  (Inr (), (snd (send_attempt env st k))
                             \<lparr>messagesProduced :=
                                messagesProduced (snd (send_attempt env st k))
                                + producedCount (batch st)\<rparr>))
       \<and> ((\<forall>j\<le>3. isl (fst (send_attempt env st j)))
            \<longrightarrow> flushBatch env st = send_attempt env st 3)
       \<and> (producer_sendBatch env = accepting_sendBatch during
            \<longrightarrow> flushBatch env st =
                  (Inr (), (during (st\<lparr>batch := [],
                                       world := (world st)\<lparr>batches := batches (world st) @ [batch st]\<rparr>\<rparr>))
                             \<lparr>messagesProduced :=
                                messagesProduced
                                  (during (st\<lparr>batch := [],
                                              world := (world st)\<lparr>batches := batches (world st) @ [batch st]\<rparr>\<rparr>))
                                + producedCount (batch st)\<rparr>))
       \<and> (producer_sendBatch env =
             accepting_sendBatch (\<lambda>s. snd (flushBatch env2 (push_all mid s)))
          \<and> producer_sendBatch env2 = accepting_sendBatch (push_all mid2) \<and> mid \<noteq> []
            \<longrightarrow> flushBatch env st =
                  (Inr (), st\<lparr>batch := mid2,
                              messagesProduced :=
                                messagesProduced st + producedCount mid + producedCount (batch st),
                              world := (world st)\<lparr>batches := batches (world st) @ [batch st, mid]\<rparr>\<rparr>))
       \<and> (producer_sendBatch env3 = accepting_sendBatch (push_all mid)
          \<and> producer_sendBatch env2 = accepting_sendBatch (push_all mid2) \<and> mid \<noteq> []
            \<longrightarrow> flushBatch env3 st =
                  (Inr (), st\<lparr>batch := mid,
                              messagesProduced := messagesProduced st + producedCount (batch st),
                              world := (world st)\<lparr>batches := batches (world st) @ [batch st]\<rparr>\<rparr>)
              \<and> flushBatch env2 (snd (flushBatch env3 st)) =
                  (Inr (), st\<lparr>batch := mid2,
                              messagesProduced :=
                                messagesProduced st + producedCount (batch st) + producedCount mid,
                              world := (world st)\<lparr>batches := batches (world st) @ [batch st, mid]\<rparr>\<rparr>))
       \<and> flushBatch env (st\<lparr>batch := []\<rparr>) = (Inr (), st\<lparr>batch := []\<rparr>)"
proof (intro conjI allI impI)
  fix k :: nat
  assume "k \<le> 3"
    and "(\<forall>j<k. isl (fst (send_attempt env st j))) \<and> fst (send_attempt env st k) = Inr ()"
  then show "flushBatch env st =
               (Inr (), (snd (send_attempt env st k))
                          \<lparr>messagesProduced :=
                             messagesProduced (snd (send_attempt env st k))
                             + producedCount (batch st)\<rparr>)"
    unfolding flushBatch_capture [OF assms] send_attempt_def
    by (intro flush_send_first_success) simp_all
next
  assume "\<forall>j\<le>3. isl (fst (send_attempt env st j))"
  then show "flushBatch env st = send_attempt env st 3"
    unfolding flushBatch_capture [OF assms] send_attempt_def
    by (rule flush_send_exhausted)
next
  assume "producer_sendBatch env = accepting_sendBatch during"
  then show "flushBatch env st =
                  (Inr (), (during (st\<lparr>batch := [],
                                       world := (world st)\<lparr>batches := batches (world st) @ [batch st]\<rparr>\<rparr>))
                             \<lparr>messagesProduced :=
                                messagesProduced
                                  (during (st\<lparr>batch := [],
                                              world := (world st)\<lparr>batches := batches (world st) @ [batch st]\<rparr>\<rparr>))
                                + producedCount (batch st)\<rparr>)"
    using assms by (rule flushBatch_accepting)
next
  assume a: "producer_sendBatch env =
             accepting_sendBatch (\<lambda>s. snd (flushBatch env2 (push_all mid s)))
          \<and> producer_sendBatch env2 = accepting_sendBatch (push_all mid2) \<and> mid \<noteq> []"
  show "flushBatch env st =
                  (Inr (), st\<lparr>batch := mid2,
                              messagesProduced :=
                                messagesProduced st + producedCount mid + producedCount (batch st),
                              world := (world st)\<lparr>batches := batches (world st) @ [batch st, mid]\<rparr>\<rparr>)"
    by (rule flushBatch_tick_during
          [OF a [THEN conjunct1] a [THEN conjunct2, THEN conjunct1]
              a [THEN conjunct2, THEN conjunct2] assms])
next
  assume a: "producer_sendBatch env3 = accepting_sendBatch (push_all mid)
          \<and> producer_sendBatch env2 = accepting_sendBatch (push_all mid2) \<and> mid \<noteq> []"
  show 1: "flushBatch env3 st =
                  (Inr (), st\<lparr>batch := mid,
                              messagesProduced := messagesProduced st + producedCount (batch st),
                              world := (world st)\<lparr>batches := batches (world st) @ [batch st]\<rparr>\<rparr>)"
    by (rule flushBatch_pushed_during [OF a [THEN conjunct1] assms])
  from a [THEN conjunct2, THEN conjunct2] show "flushBatch env2 (snd (flushBatch env3 st)) =
                  (Inr (), st\<lparr>batch := mid2,
                              messagesProduced :=
                                messagesProduced st + producedCount (batch st) + producedCount mid,
                              world := (world st)\<lparr>batches := batches (world st) @ [batch st, mid]\<rparr>\<rparr>)"
    unfolding 1
    by (simp add: flushBatch_pushed_during [OF a [THEN conjunct2, THEN conjunct1]])
next
  show "flushBatch env (st\<lparr>batch := []\<rparr>) = (Inr (), st\<lparr>batch := []\<rparr>)"
    by (rule flushBatch_empty) simp
qed

theorem flushBatch_atomic_witness:
  "fst (flushBatch flaky_env (push_all [queued ''f1'', queued ''f2''] (outage 1))) = Inr ()
   \<and> batches (world (snd (flushBatch flaky_env (push_all [queued ''f1'', queued ''f2''] (outage 1)))))
       = [[queued ''f1'', queued ''f2'']]
   \<and> messagesProduced (snd (flushBatch flaky_env (push_all [queued ''f1'', queued ''f2''] (outage 1))))
       = 2
   \<and> fst (flushBatch flaky_env (push_all [queued ''f1'', queued ''f2''] (outage 4)))
       = Inl (JsError (Some ''KafkaJSError'') ''request timed out'')
   \<and> batches (world (snd (flushBatch flaky_env (push_all [queued ''f1'', queued ''f2''] (outage 4)))))
       = []
   \<and> batch (snd (flushBatch flaky_env (push_all [queued ''f1'', queued ''f2''] (outage 4)))) = []
   \<and> batches (world (snd (flushBatch (tick_env [] []) (push_all [queued ''f1'', queued ''f2''] idle))))
       = [[queued ''f1'', queued ''f2'']]
   \<and> batches (world (snd (flushBatch (tick_env [queued ''f3''] [queued ''f4''])
                               (push_all [queued ''f1'', queued ''f2''] idle))))
       = [[queued ''f1'', queued ''f2''], [queued ''f3'']]
   \<and> batch (snd (flushBatch (tick_env [queued ''f3''] [queued ''f4''])
                      (push_all [queued ''f1'', queued ''f2''] idle)))
       = [queued ''f4'']
   \<and> messagesProduced (snd (flushBatch (tick_env [queued ''f3''] [queued ''f4''])
                                 (push_all [queued ''f1'', queued ''f2''] idle)))
       = 3
   \<and> batch (snd (flushBatch (late_env [queued ''f3'']) (push_all [queued ''f1'', queued ''f2''] idle)))
       = [queued ''f3'']
   \<and> batches (world (snd (flushBatch (late_env [queued ''f4''])
                 (snd (flushBatch (late_env [queued ''f3''])
                         (push_all [queued ''f1'', queued ''f2''] idle))))))
       = [[queued ''f1'', queued ''f2''], [queued ''f3'']]
   \<and> batch (snd (flushBatch (late_env [queued ''f4''])
                 (snd (flushBatch (late_env [queued ''f3''])
                         (push_all [queued ''f1'', queued ''f2''] idle)))))
       = [queued ''f4'']
   \<and> flushBatch example_env ((push_all [queued ''f1'', queued ''f2''] idle)\<lparr>batch := []\<rparr>)
       = (Inr (), (push_all [queued ''f1'', queued ''f2''] idle)\<lparr>batch := []\<rparr>)"
proof -
  let ?es = "[queued ''f1'', queued ''f2'']"
  let ?m = "[queued ''f3'']"
  let ?m2 = "[queued ''f4'']"
  have ne: "batch (push_all ?es s) \<noteq> []" for s :: "broker service"
    by (simp add: batch_push_all)
  have a0: "\<forall>j<1. isl (fst (send_attempt flaky_env (push_all ?es (outage 1)) j))"
  proof -
    have "isl (fst (send_attempt flaky_env (push_all ?es (outage 1)) 0))" by code_simp
    then show ?thesis by simp
  qed
  have a1: "fst (send_attempt flaky_env (push_all ?es (outage 1)) 1) = Inr ()"
    by code_simp
  have a: "flushBatch flaky_env (push_all ?es (outage 1)) =
             (Inr (), (snd (send_attempt flaky_env (push_all ?es (outage 1)) 1))
                        \<lparr>messagesProduced :=
                           messagesProduced (snd (send_attempt flaky_env (push_all ?es (outage 1)) 1))
                           + producedCount (batch (push_all ?es (outage 1)))\<rparr>)"
    using flushBatch_atomic [where st = "push_all ?es (outage 1)" and env = flaky_env, OF ne,
            THEN conjunct1, THEN spec, of 1] a0 a1
    by simp
  have b0: "\<forall>j\<le>3. isl (fst (send_attempt flaky_env (push_all ?es (outage 4)) j))"
    unfolding all_le_3 by (intro conjI; code_simp)
  have b: "flushBatch flaky_env (push_all ?es (outage 4)) =
             send_attempt flaky_env (push_all ?es (outage 4)) 3"
    using flushBatch_atomic [where st = "push_all ?es (outage 4)" and env = flaky_env, OF ne,
            THEN conjunct2, THEN conjunct1] b0
    by simp
  have c0: "producer_sendBatch (tick_env mid mid2) =
              accepting_sendBatch (\<lambda>s. snd (flushBatch (late_env mid2) (push_all mid s)))"
    for mid mid2
    by (simp add: tick_env_def)
  have l0: "producer_sendBatch (late_env mid) = accepting_sendBatch (push_all mid)" for mid
    by (simp add: late_env_def)
  note c = flushBatch_atomic [where st = "push_all ?es idle" and env = "tick_env [] []"
             and during = "\<lambda>s. snd (flushBatch (late_env []) (push_all [] s))", OF ne,
             THEN conjunct2, THEN conjunct2, THEN conjunct1, THEN mp, OF c0]
  have d: "flushBatch (tick_env ?m ?m2) (push_all ?es idle) =
             (Inr (), (push_all ?es idle)
                \<lparr>batch := ?m2,
                 messagesProduced :=
                   messagesProduced (push_all ?es idle) + producedCount ?m
                   + producedCount (batch (push_all ?es idle)),
                 world := (world (push_all ?es idle))
                   \<lparr>batches := batches (world (push_all ?es idle))
                                @ [batch (push_all ?es idle), ?m]\<rparr>\<rparr>)"
    using flushBatch_atomic [where st = "push_all ?es idle" and env = "tick_env ?m ?m2"
            and ?env2.0 = "late_env ?m2" and mid = ?m and ?mid2.0 = ?m2, OF ne,
            THEN conjunct2, THEN conjunct2, THEN conjunct2, THEN conjunct1]
          c0 [of ?m ?m2] l0 [of ?m2]
    by simp
  note e = flushBatch_atomic [where st = "push_all ?es idle" and ?env3.0 = "late_env ?m"
             and ?env2.0 = "late_env ?m2" and mid = ?m and ?mid2.0 = ?m2, OF ne,
             THEN conjunct2, THEN conjunct2, THEN conjunct2, THEN conjunct2, THEN conjunct1,
             THEN mp, OF conjI [OF l0 conjI [OF l0]]]
  have e': "?m \<noteq> []" by simp
  note f = flushBatch_atomic [where st = "push_all ?es idle" and env = example_env, OF ne,
             THEN conjunct2, THEN conjunct2, THEN conjunct2, THEN conjunct2, THEN conjunct2]
  have 1: "fst (flushBatch flaky_env (push_all ?es (outage 1))) = Inr ()"
    unfolding a by simp
  have 2: "batches (world (snd (flushBatch flaky_env (push_all ?es (outage 1))))) = [?es]"
    unfolding a by code_simp
  have 3: "messagesProduced (snd (flushBatch flaky_env (push_all ?es (outage 1)))) = 2"
    unfolding a by code_simp
  have 4: "fst (flushBatch flaky_env (push_all ?es (outage 4)))
             = Inl (JsError (Some ''KafkaJSError'') ''request timed out'')"
    unfolding b by code_simp
  have 5: "batches (world (snd (flushBatch flaky_env (push_all ?es (outage 4))))) = []"
    unfolding b by code_simp
  have 6: "batch (snd (flushBatch flaky_env (push_all ?es (outage 4)))) = []"
    unfolding b by code_simp
  have 7: "batches (world (snd (flushBatch (tick_env [] []) (push_all ?es idle)))) = [?es]"
    unfolding c by code_simp
  have 8: "batches (world (snd (flushBatch (tick_env ?m ?m2) (push_all ?es idle)))) = [?es, ?m]"
    unfolding d by code_simp
  have 9: "batch (snd (flushBatch (tick_env ?m ?m2) (push_all ?es idle))) = ?m2"
    unfolding d by simp
  have 10: "messagesProduced (snd (flushBatch (tick_env ?m ?m2) (push_all ?es idle))) = 3"
    unfolding d by code_simp
  have 11: "batch (snd (flushBatch (late_env ?m) (push_all ?es idle))) = ?m"
    unfolding e [OF e', THEN conjunct1] by simp
  have 12: "batches (world (snd (flushBatch (late_env ?m2)
                 (snd (flushBatch (late_env ?m) (push_all ?es idle)))))) = [?es, ?m]"
    unfolding e [OF e', THEN conjunct2] by code_simp
  have 13: "batch (snd (flushBatch (late_env ?m2)
                 (snd (flushBatch (late_env ?m) (push_all ?es idle))))) = ?m2"
    unfolding e [OF e', THEN conjunct2] by simp
  from 1 2 3 4 5 6 7 8 9 10 11 12 13 f show ?thesis
    by (intro conjI)
qed

end
